theory Spec2Isabelle
  imports Complex_Main
begin

section \<open>Values, exceptions and store commands\<close>

text \<open>
  The coordination layer of \<^verbatim>\<open>app/infrastructure/redis/factory.py\<close>: a facade
  (\<^verbatim>\<open>RedisClient\<close>) over a pooled store client, a distributed lock
  (\<^verbatim>\<open>RedisDistributedLock\<close>) and a stream queue. Every \<^verbatim>\<open>await client.cmd(...)\<close>
  of the source is one call of a client function \<open>conn\<close>, which takes the namespace, the
  command and the world, and returns the reply or the raised exception with the new world.
  The facade is written against an arbitrary client; a model of the store itself
  (\<open>redis_exec\<close>, \<open>sim_conn\<close>) gives the commands their meaning where a property
  depends on it.
\<close>

datatype RedisSpaceEnum = DEFAULT | SYSTEM | USER | AUTH | BUSINESS | LLM | MONITOR

fun space_value :: "RedisSpaceEnum \<Rightarrow> int" where
  "space_value DEFAULT = 0"
| "space_value SYSTEM = 1"
| "space_value USER = 10"
| "space_value AUTH = 20"
| "space_value BUSINESS = 30"
| "space_value LLM = 40"
| "space_value MONITOR = 50"

text \<open>
  Python values as far as the layer handles them. \<open>PSid\<close> is a stream entry ID (a string
  such as \<^verbatim>\<open>1700000000000-0\<close> in the store), kept as its position in the total order
  of IDs. \<open>PSet\<close> lists the members of a set.
\<close>

datatype pyval =
    PNone
  | PBool bool
  | PInt int
  | PStr string
  | PSid nat
  | PList "pyval list"
  | PTuple "pyval list"
  | PSet "pyval list"
  | PDict "(pyval \<times> pyval) list"

datatype exn =
    RedisError string
  | KeyError string
  | TypeError string
  | ValueError string
  | IndexError string
  | JSONDecodeError string
  | RecursionError string
  | UnboundLocalError string

text \<open>\<^verbatim>\<open>str(e)\<close>: the message; a \<^verbatim>\<open>KeyError\<close> prints the repr of its key.\<close>

fun exn_str :: "exn \<Rightarrow> string" where
  "exn_str (RedisError m) = m"
| "exn_str (KeyError k) = [CHR 0x27] @ k @ [CHR 0x27]"
| "exn_str (TypeError m) = m"
| "exn_str (ValueError m) = m"
| "exn_str (IndexError m) = m"
| "exn_str (JSONDecodeError m) = m"
| "exn_str (RecursionError m) = m"
| "exn_str (UnboundLocalError m) = m"

text \<open>\<^verbatim>\<open>bool(x)\<close>, Python's truth value.\<close>

fun py_bool :: "pyval \<Rightarrow> bool" where
  "py_bool PNone = False"
| "py_bool (PBool b) = b"
| "py_bool (PInt n) = (n \<noteq> 0)"
| "py_bool (PStr s) = (s \<noteq> [])"
| "py_bool (PSid n) = True"
| "py_bool (PList xs) = (xs \<noteq> [])"
| "py_bool (PTuple xs) = (xs \<noteq> [])"
| "py_bool (PSet xs) = (xs \<noteq> [])"
| "py_bool (PDict kvs) = (kvs \<noteq> [])"

text \<open>
  The Python library functions the facade calls: \<^verbatim>\<open>json.dumps(v, ensure_ascii=False)\<close>
  and \<^verbatim>\<open>json.loads(s)\<close> on a string, each with the text it returns or the exception it
  raises (\<^verbatim>\<open>TypeError\<close>, \<^verbatim>\<open>ValueError\<close>, \<^verbatim>\<open>JSONDecodeError\<close>,
  \<^verbatim>\<open>RecursionError\<close>), and \<^verbatim>\<open>str(v)\<close> on values that are not strings.
\<close>

record python =
  json_dumps :: "pyval \<Rightarrow> exn + string"
  json_loads :: "string \<Rightarrow> exn + pyval"
  str_other :: "pyval \<Rightarrow> string"

definition py_str :: "python \<Rightarrow> pyval \<Rightarrow> string" where
  "py_str P v = (case v of PStr s \<Rightarrow> s | _ \<Rightarrow> str_other P v)"

text \<open>\<^verbatim>\<open>json.dumps(obj, ensure_ascii=False)\<close> and \<^verbatim>\<open>json.loads(value)\<close> with their exceptions.\<close>

definition dumps :: "python \<Rightarrow> pyval \<Rightarrow> exn + string" where
  "dumps P v = json_dumps P v"

definition loads :: "python \<Rightarrow> pyval \<Rightarrow> exn + pyval" where
  "loads P v = (case v of
                  PStr s \<Rightarrow> json_loads P s
                | _ \<Rightarrow> Inl (TypeError ''the JSON object must be str, bytes or bytearray''))"

text \<open>\<^verbatim>\<open>isinstance(value, (dict, list))\<close>: not a tuple.\<close>

fun is_dict_or_list :: "pyval \<Rightarrow> bool" where
  "is_dict_or_list (PList xs) = True"
| "is_dict_or_list (PDict kvs) = True"
| "is_dict_or_list v = False"

text \<open>\<^verbatim>\<open>d[key]\<close> for a string key.\<close>

fun py_getitem :: "pyval \<Rightarrow> string \<Rightarrow> exn + pyval" where
  "py_getitem (PDict kvs) k =
     (case map_of kvs (PStr k) of None \<Rightarrow> Inl (KeyError k) | Some v \<Rightarrow> Inr v)"
| "py_getitem v k = Inl (TypeError ''indices must be integers'')"

text \<open>\<^verbatim>\<open>xs[0]\<close>\<close>

fun py_first :: "pyval \<Rightarrow> exn + pyval" where
  "py_first (PList []) = Inl (IndexError ''list index out of range'')"
| "py_first (PList (x # xs)) = Inr x"
| "py_first (PTuple []) = Inl (IndexError ''tuple index out of range'')"
| "py_first (PTuple (x # xs)) = Inr x"
| "py_first (PDict kvs) = (case map_of kvs (PInt 0) of None \<Rightarrow> Inl (KeyError ''0'') | Some v \<Rightarrow> Inr v)"
| "py_first (PStr []) = Inl (IndexError ''string index out of range'')"
| "py_first (PStr (c # cs)) = Inr (PStr [c])"
| "py_first v = Inl (TypeError ''object is not subscriptable'')"

text \<open>\<^verbatim>\<open>xs[1]\<close>\<close>

fun py_second :: "pyval \<Rightarrow> exn + pyval" where
  "py_second (PList (x # y # ys)) = Inr y"
| "py_second (PList xs) = Inl (IndexError ''list index out of range'')"
| "py_second (PTuple (x # y # ys)) = Inr y"
| "py_second (PTuple xs) = Inl (IndexError ''tuple index out of range'')"
| "py_second (PStr (c # d # cs)) = Inr (PStr [d])"
| "py_second (PStr cs) = Inl (IndexError ''string index out of range'')"
| "py_second (PDict kvs) = (case map_of kvs (PInt 1) of None \<Rightarrow> Inl (KeyError ''1'') | Some v \<Rightarrow> Inr v)"
| "py_second v = Inl (TypeError ''object is not subscriptable'')"

text \<open>\<^verbatim>\<open>for value in values\<close>: the elements of an iterable.\<close>

fun py_iter :: "pyval \<Rightarrow> exn + pyval list" where
  "py_iter (PList xs) = Inr xs"
| "py_iter (PTuple xs) = Inr xs"
| "py_iter (PSet xs) = Inr xs"
| "py_iter (PDict kvs) = Inr (map fst kvs)"
| "py_iter (PStr s) = Inr (map (\<lambda>c. PStr [c]) s)"
| "py_iter v = Inl (TypeError ''object is not iterable'')"

text \<open>\<^verbatim>\<open>a, b = x\<close>: unpacking an iterable into exactly two names.\<close>

definition py_unpack2 :: "pyval \<Rightarrow> exn + (pyval \<times> pyval)" where
  "py_unpack2 v =
     (case py_iter v of
        Inl e \<Rightarrow> Inl (TypeError ''cannot unpack non-iterable object'')
      | Inr [a, b] \<Rightarrow> Inr (a, b)
      | Inr xs \<Rightarrow> Inl (ValueError ''wrong number of values to unpack''))"

text \<open>The atomic scripts of \<^verbatim>\<open>_get_script_content\<close>: the one it knows, and the empty text it
  returns for any other name.\<close>

datatype lua = Lua_delete_if_equal | Lua_empty

definition get_script_content :: "string \<Rightarrow> lua" where
  "get_script_content script_name =
     (if script_name = ''delete_if_equal'' then Lua_delete_if_equal else Lua_empty)"

text \<open>The store commands the layer sends, each with the arguments the source passes.\<close>

datatype command =
    PING
  | EXISTS string
  | GET string
  | SETEX string int pyval
  | SET_NX_EX string string int
  | DEL string
  | EVALSCRIPT lua "string list" "string list"
  | HSET string string string
  | HGET string string
  | HGETALL string
  | HDEL string "string list"
  | LPUSH string "string list"
  | RPOP string
  | LLEN string
  | SADD string string
  | SREM string string
  | SMEMBERS string
  | SISMEMBER string string
  | ZADD string string real
  | ZCOUNT string real real
  | ZPOPMIN string int
  | ZRANGEBYSCORE string real real
  | EXPIRE string int
  | TTL string
  | PIPELINE_SET_NX_EX string string int
  | XADD string pyval
  | XINFO_GROUPS string
  | XGROUP_CREATE string string string bool
  | XREADGROUP string string int int string pyval
  | XACK string string pyval
  | XPENDING_RANGE string string string string int
  | XRANGE string pyval pyval
  | MGET "string list"
  | MSET "(string \<times> string) list"

type_synonym 'w conn = "RedisSpaceEnum \<Rightarrow> command \<Rightarrow> 'w \<Rightarrow> (exn + pyval) \<times> 'w"


section \<open>RedisClient: the key-value facade\<close>

text \<open>
  Every operation resolves the client of its namespace (\<open>conn sp\<close>), performs its calls
  inside \<^verbatim>\<open>try\<close>, and returns in \<^verbatim>\<open>except Exception\<close> the value written there.
  An operation returns \<open>Inr\<close> of its value, or \<open>Inl\<close> of an exception that leaves it.
\<close>

definition exist :: "'w conn \<Rightarrow> string \<Rightarrow> RedisSpaceEnum \<Rightarrow> 'w \<Rightarrow> (exn + bool) \<times> 'w" where
  "exist conn k sp w =
     (case conn sp (EXISTS k) w of
        (Inl e, w') \<Rightarrow> (Inr False, w')
      | (Inr result, w') \<Rightarrow> (Inr (py_bool result), w'))"

definition get :: "'w conn \<Rightarrow> string \<Rightarrow> RedisSpaceEnum \<Rightarrow> 'w \<Rightarrow> (exn + pyval) \<times> 'w" where
  "get conn k sp w =
     (case conn sp (GET k) w of
        (Inl e, w') \<Rightarrow> (Inr PNone, w')
      | (Inr result, w') \<Rightarrow> (Inr result, w'))"

definition set' :: "'w conn \<Rightarrow> string \<Rightarrow> pyval \<Rightarrow> int \<Rightarrow> RedisSpaceEnum \<Rightarrow> 'w \<Rightarrow> (exn + bool) \<times> 'w" where
  "set' conn k v ex sp w =
     (case conn sp (SETEX k ex v) w of
        (Inl e, w') \<Rightarrow> (Inr False, w')
      | (Inr result, w') \<Rightarrow> (Inr (py_bool result), w'))"

definition set_obj ::
  "python \<Rightarrow> 'w conn \<Rightarrow> string \<Rightarrow> pyval \<Rightarrow> int \<Rightarrow> RedisSpaceEnum \<Rightarrow> 'w \<Rightarrow> (exn + bool) \<times> 'w" where
  "set_obj P conn k obj ex sp w =
     (case dumps P obj of
        Inl e \<Rightarrow> (Inr False, w)
      | Inr json_str \<Rightarrow>
          (case conn sp (SETEX k ex (PStr json_str)) w of
             (Inl e, w') \<Rightarrow> (Inr False, w')
           | (Inr result, w') \<Rightarrow> (Inr (py_bool result), w')))"

definition delete :: "'w conn \<Rightarrow> string \<Rightarrow> RedisSpaceEnum \<Rightarrow> 'w \<Rightarrow> (exn + bool) \<times> 'w" where
  "delete conn k sp w =
     (case conn sp (DEL k) w of
        (Inl e, w') \<Rightarrow> (Inr False, w')
      | (Inr result, w') \<Rightarrow> (Inr (py_bool result), w'))"

text \<open>
  \<^verbatim>\<open>_get_lua_script\<close> registers the text of the named script once per namespace and
  caches the handle; calling the handle runs the script on the store. The cache only saves
  the registration, so the handle is the script text.
\<close>

definition get_lua_script :: "RedisSpaceEnum \<Rightarrow> string \<Rightarrow> lua" where
  "get_lua_script sp script_name = get_script_content script_name"

definition delete_if_equal ::
  "'w conn \<Rightarrow> string \<Rightarrow> string \<Rightarrow> RedisSpaceEnum \<Rightarrow> 'w \<Rightarrow> (exn + bool) \<times> 'w" where
  "delete_if_equal conn key expected_value sp w =
     (case conn sp (EVALSCRIPT (get_lua_script sp ''delete_if_equal'') [key] [expected_value]) w of
        (Inl e, w') \<Rightarrow> (Inr False, w')
      | (Inr result, w') \<Rightarrow> (Inr (py_bool result), w'))"

subsection \<open>Hash operations\<close>

text \<open>The value a write sends: a dict or list as its JSON text, anything else through \<^verbatim>\<open>str\<close>.\<close>

definition to_str_value :: "python \<Rightarrow> pyval \<Rightarrow> exn + string" where
  "to_str_value P v =
     (if is_dict_or_list v
      then (case dumps P v of Inl e \<Rightarrow> Inl e | Inr s \<Rightarrow> Inr (py_str P (PStr s)))
      else Inr (py_str P v))"

definition hset ::
  "python \<Rightarrow> 'w conn \<Rightarrow> string \<Rightarrow> string \<Rightarrow> pyval \<Rightarrow> RedisSpaceEnum \<Rightarrow> 'w \<Rightarrow> (exn + bool) \<times> 'w" where
  "hset P conn name key v sp w =
     (case to_str_value P v of
        Inl e \<Rightarrow> (Inr False, w)
      | Inr s \<Rightarrow>
          (case conn sp (HSET name key s) w of
             (Inl e, w') \<Rightarrow> (Inr False, w')
           | (Inr result, w') \<Rightarrow> (Inr (py_bool result), w')))"

text \<open>\<^verbatim>\<open>try: return json.loads(value) except (JSONDecodeError, TypeError): return value\<close>\<close>

definition loads_or_raw :: "python \<Rightarrow> pyval \<Rightarrow> exn + pyval" where
  "loads_or_raw P v =
     (case loads P v of
        Inr x \<Rightarrow> Inr x
      | Inl (JSONDecodeError m) \<Rightarrow> Inr v
      | Inl (TypeError m) \<Rightarrow> Inr v
      | Inl e \<Rightarrow> Inl e)"

definition hget ::
  "python \<Rightarrow> 'w conn \<Rightarrow> string \<Rightarrow> string \<Rightarrow> pyval \<Rightarrow> RedisSpaceEnum \<Rightarrow> 'w \<Rightarrow> (exn + pyval) \<times> 'w" where
  "hget P conn name key dflt sp w =
     (case conn sp (HGET name key) w of
        (Inl e, w') \<Rightarrow> (Inr dflt, w')
      | (Inr v, w') \<Rightarrow>
          (if v = PNone then (Inr dflt, w')
           else (case loads_or_raw P v of
                   Inl e \<Rightarrow> (Inr dflt, w')
                 | Inr x \<Rightarrow> (Inr x, w'))))"

text \<open>\<^verbatim>\<open>for key, value in data.items()\<close>: only a dict has \<open>items\<close>.\<close>

fun py_items :: "pyval \<Rightarrow> exn + (pyval \<times> pyval) list" where
  "py_items (PDict kvs) = Inr kvs"
| "py_items v = Inl (TypeError ''object has no attribute items'')"

fun loads_items :: "python \<Rightarrow> (pyval \<times> pyval) list \<Rightarrow> exn + (pyval \<times> pyval) list" where
  "loads_items P [] = Inr []"
| "loads_items P ((k, v) # kvs) =
     (case loads_or_raw P v of
        Inl e \<Rightarrow> Inl e
      | Inr x \<Rightarrow> (case loads_items P kvs of Inl e \<Rightarrow> Inl e | Inr r \<Rightarrow> Inr ((k, x) # r)))"

definition hgetall :: "python \<Rightarrow> 'w conn \<Rightarrow> string \<Rightarrow> RedisSpaceEnum \<Rightarrow> 'w \<Rightarrow> (exn + pyval) \<times> 'w" where
  "hgetall P conn name sp w =
     (case conn sp (HGETALL name) w of
        (Inl e, w') \<Rightarrow> (Inr (PDict []), w')
      | (Inr data, w') \<Rightarrow>
          (case py_items data of
             Inl e \<Rightarrow> (Inr (PDict []), w')
           | Inr kvs \<Rightarrow>
               (case loads_items P kvs of
                  Inl e \<Rightarrow> (Inr (PDict []), w')
                | Inr r \<Rightarrow> (Inr (PDict r), w'))))"

definition hdel :: "'w conn \<Rightarrow> string \<Rightarrow> string list \<Rightarrow> RedisSpaceEnum \<Rightarrow> 'w \<Rightarrow> (exn + pyval) \<times> 'w" where
  "hdel conn name keys sp w =
     (case conn sp (HDEL name keys) w of
        (Inl e, w') \<Rightarrow> (Inr (PInt 0), w')
      | (Inr result, w') \<Rightarrow> (Inr result, w'))"

subsection \<open>List operations\<close>

fun to_str_values :: "python \<Rightarrow> pyval list \<Rightarrow> exn + string list" where
  "to_str_values P [] = Inr []"
| "to_str_values P (v # vs) =
     (case to_str_value P v of
        Inl e \<Rightarrow> Inl e
      | Inr s \<Rightarrow> (case to_str_values P vs of Inl e \<Rightarrow> Inl e | Inr r \<Rightarrow> Inr (s # r)))"

definition lpush ::
  "python \<Rightarrow> 'w conn \<Rightarrow> string \<Rightarrow> pyval list \<Rightarrow> RedisSpaceEnum \<Rightarrow> 'w \<Rightarrow> (exn + pyval) \<times> 'w" where
  "lpush P conn name values sp w =
     (case to_str_values P values of
        Inl e \<Rightarrow> (Inr (PInt 0), w)
      | Inr str_values \<Rightarrow>
          (case conn sp (LPUSH name str_values) w of
             (Inl e, w') \<Rightarrow> (Inr (PInt 0), w')
           | (Inr result, w') \<Rightarrow> (Inr result, w')))"

definition rpop ::
  "python \<Rightarrow> 'w conn \<Rightarrow> string \<Rightarrow> pyval \<Rightarrow> RedisSpaceEnum \<Rightarrow> 'w \<Rightarrow> (exn + pyval) \<times> 'w" where
  "rpop P conn name dflt sp w =
     (case conn sp (RPOP name) w of
        (Inl e, w') \<Rightarrow> (Inr dflt, w')
      | (Inr v, w') \<Rightarrow>
          (if v = PNone then (Inr dflt, w')
           else (case loads_or_raw P v of
                   Inl e \<Rightarrow> (Inr dflt, w')
                 | Inr x \<Rightarrow> (Inr x, w'))))"

definition llen :: "'w conn \<Rightarrow> string \<Rightarrow> RedisSpaceEnum \<Rightarrow> 'w \<Rightarrow> (exn + pyval) \<times> 'w" where
  "llen conn name sp w =
     (case conn sp (LLEN name) w of
        (Inl e, w') \<Rightarrow> (Inr (PInt 0), w')
      | (Inr result, w') \<Rightarrow> (Inr result, w'))"

subsection \<open>Set and sorted-set operations\<close>

definition sadd :: "'w conn \<Rightarrow> string \<Rightarrow> string \<Rightarrow> RedisSpaceEnum \<Rightarrow> 'w \<Rightarrow> (exn + bool) \<times> 'w" where
  "sadd conn key memb sp w =
     (case conn sp (SADD key memb) w of
        (Inl e, w') \<Rightarrow> (Inr False, w')
      | (Inr result, w') \<Rightarrow> (Inr (py_bool result), w'))"

definition srem :: "'w conn \<Rightarrow> string \<Rightarrow> string \<Rightarrow> RedisSpaceEnum \<Rightarrow> 'w \<Rightarrow> (exn + bool) \<times> 'w" where
  "srem conn key memb sp w =
     (case conn sp (SREM key memb) w of
        (Inl e, w') \<Rightarrow> (Inr False, w')
      | (Inr result, w') \<Rightarrow> (Inr (py_bool result), w'))"

definition smembers :: "'w conn \<Rightarrow> string \<Rightarrow> RedisSpaceEnum \<Rightarrow> 'w \<Rightarrow> (exn + pyval) \<times> 'w" where
  "smembers conn key sp w =
     (case conn sp (SMEMBERS key) w of
        (Inl e, w') \<Rightarrow> (Inr (PSet []), w')
      | (Inr result, w') \<Rightarrow> (Inr result, w'))"

definition sismember :: "'w conn \<Rightarrow> string \<Rightarrow> string \<Rightarrow> RedisSpaceEnum \<Rightarrow> 'w \<Rightarrow> (exn + bool) \<times> 'w" where
  "sismember conn key memb sp w =
     (case conn sp (SISMEMBER key memb) w of
        (Inl e, w') \<Rightarrow> (Inr False, w')
      | (Inr result, w') \<Rightarrow> (Inr (py_bool result), w'))"

definition zadd :: "'w conn \<Rightarrow> string \<Rightarrow> string \<Rightarrow> real \<Rightarrow> RedisSpaceEnum \<Rightarrow> 'w \<Rightarrow> (exn + bool) \<times> 'w" where
  "zadd conn key memb score sp w =
     (case conn sp (ZADD key memb score) w of
        (Inl e, w') \<Rightarrow> (Inr False, w')
      | (Inr result, w') \<Rightarrow> (Inr (py_bool result), w'))"

definition zcount :: "'w conn \<Rightarrow> string \<Rightarrow> real \<Rightarrow> real \<Rightarrow> RedisSpaceEnum \<Rightarrow> 'w \<Rightarrow> (exn + pyval) \<times> 'w" where
  "zcount conn key lo hi sp w =
     (case conn sp (ZCOUNT key lo hi) w of
        (Inl e, w') \<Rightarrow> (Inr (PInt 0), w')
      | (Inr result, w') \<Rightarrow> (Inr result, w'))"

definition zpopmin :: "'w conn \<Rightarrow> string \<Rightarrow> int \<Rightarrow> RedisSpaceEnum \<Rightarrow> 'w \<Rightarrow> (exn + pyval) \<times> 'w" where
  "zpopmin conn key count sp w =
     (case conn sp (ZPOPMIN key count) w of
        (Inl e, w') \<Rightarrow> (Inr (PList []), w')
      | (Inr result, w') \<Rightarrow> (Inr result, w'))"

definition zrangebyscore ::
  "'w conn \<Rightarrow> string \<Rightarrow> real \<Rightarrow> real \<Rightarrow> RedisSpaceEnum \<Rightarrow> 'w \<Rightarrow> (exn + pyval) \<times> 'w" where
  "zrangebyscore conn key lo hi sp w =
     (case conn sp (ZRANGEBYSCORE key lo hi) w of
        (Inl e, w') \<Rightarrow> (Inr (PList []), w')
      | (Inr result, w') \<Rightarrow> (Inr result, w'))"

subsection \<open>Expiry, the conditional set in a pipeline, health\<close>

definition expire :: "'w conn \<Rightarrow> string \<Rightarrow> int \<Rightarrow> RedisSpaceEnum \<Rightarrow> 'w \<Rightarrow> (exn + bool) \<times> 'w" where
  "expire conn key seconds sp w =
     (case conn sp (EXPIRE key seconds) w of
        (Inl e, w') \<Rightarrow> (Inr False, w')
      | (Inr result, w') \<Rightarrow> (Inr (py_bool result), w'))"

definition ttl :: "'w conn \<Rightarrow> string \<Rightarrow> RedisSpaceEnum \<Rightarrow> 'w \<Rightarrow> (exn + pyval) \<times> 'w" where
  "ttl conn key sp w =
     (case conn sp (TTL key) w of
        (Inl e, w') \<Rightarrow> (Inr (PInt (- 2)), w')
      | (Inr result, w') \<Rightarrow> (Inr result, w'))"

definition transaction ::
  "python \<Rightarrow> 'w conn \<Rightarrow> string \<Rightarrow> pyval \<Rightarrow> int \<Rightarrow> RedisSpaceEnum \<Rightarrow> 'w \<Rightarrow> (exn + bool) \<times> 'w" where
  "transaction P conn key v expire_s sp w =
     (case to_str_value P v of
        Inl e \<Rightarrow> (Inr False, w)
      | Inr s \<Rightarrow>
          (case conn sp (PIPELINE_SET_NX_EX key s expire_s) w of
             (Inl e, w') \<Rightarrow> (Inr False, w')
           | (Inr results, w') \<Rightarrow>
               (case py_first results of
                  Inl e \<Rightarrow> (Inr False, w')
                | Inr r \<Rightarrow> (Inr (py_bool r), w'))))"

definition health_check :: "'w conn \<Rightarrow> RedisSpaceEnum \<Rightarrow> 'w \<Rightarrow> (exn + bool) \<times> 'w" where
  "health_check conn sp w =
     (case conn sp PING w of
        (Inl e, w1) \<Rightarrow> (Inr False, w1)
      | (Inr pong, w1) \<Rightarrow>
          (case conn sp (SETEX ''xx'' 3 (PStr ''yy'')) w1 of
             (Inl e, w2) \<Rightarrow> (Inr False, w2)
           | (Inr ok, w2) \<Rightarrow>
               (case conn sp (GET ''xx'') w2 of
                  (Inl e, w3) \<Rightarrow> (Inr False, w3)
                | (Inr result, w3) \<Rightarrow> (Inr (result = PStr ''yy''), w3))))"

definition is_alive :: "'w conn \<Rightarrow> RedisSpaceEnum \<Rightarrow> 'w \<Rightarrow> (exn + bool) \<times> 'w" where
  "is_alive conn sp w =
     (case conn sp PING w of
        (Inl e, w') \<Rightarrow> (Inr False, w')
      | (Inr pong, w') \<Rightarrow> (Inr True, w'))"

subsection \<open>Batch operations\<close>

fun loads_values :: "python \<Rightarrow> pyval list \<Rightarrow> exn + pyval list" where
  "loads_values P [] = Inr []"
| "loads_values P (v # vs) =
     (case (if v = PNone then Inr PNone else loads_or_raw P v) of
        Inl e \<Rightarrow> Inl e
      | Inr x \<Rightarrow> (case loads_values P vs of Inl e \<Rightarrow> Inl e | Inr r \<Rightarrow> Inr (x # r)))"

definition mget ::
  "python \<Rightarrow> 'w conn \<Rightarrow> string list \<Rightarrow> RedisSpaceEnum \<Rightarrow> 'w \<Rightarrow> (exn + pyval list) \<times> 'w" where
  "mget P conn keys sp w =
     (case conn sp (MGET keys) w of
        (Inl e, w') \<Rightarrow> (Inr (replicate (length keys) PNone), w')
      | (Inr vals, w') \<Rightarrow>
          (case py_iter vals of
             Inl e \<Rightarrow> (Inr (replicate (length keys) PNone), w')
           | Inr vs \<Rightarrow>
               (case loads_values P vs of
                  Inl e \<Rightarrow> (Inr (replicate (length keys) PNone), w')
                | Inr r \<Rightarrow> (Inr r, w'))))"

fun to_str_mapping :: "python \<Rightarrow> (string \<times> pyval) list \<Rightarrow> exn + (string \<times> string) list" where
  "to_str_mapping P [] = Inr []"
| "to_str_mapping P ((k, v) # kvs) =
     (case to_str_value P v of
        Inl e \<Rightarrow> Inl e
      | Inr s \<Rightarrow> (case to_str_mapping P kvs of Inl e \<Rightarrow> Inl e | Inr r \<Rightarrow> Inr ((k, s) # r)))"

definition mset ::
  "python \<Rightarrow> 'w conn \<Rightarrow> (string \<times> pyval) list \<Rightarrow> RedisSpaceEnum \<Rightarrow> 'w \<Rightarrow> (exn + bool) \<times> 'w" where
  "mset P conn mapping sp w =
     (case to_str_mapping P mapping of
        Inl e \<Rightarrow> (Inr False, w)
      | Inr str_mapping \<Rightarrow>
          (case conn sp (MSET str_mapping) w of
             (Inl e, w') \<Rightarrow> (Inr False, w')
           | (Inr result, w') \<Rightarrow> (Inr (py_bool result), w')))"


section \<open>RedisMsg and the stream queue\<close>

record RedisMsg =
  m_consumer :: RedisSpaceEnum
  m_queue_name :: string
  m_group_name :: string
  m_msg_id :: pyval
  m_message :: pyval

text \<open>\<^verbatim>\<open>RedisMsg.__init__\<close>: \<^verbatim>\<open>self.__message = json.loads(message["message"])\<close>. The
  client it keeps is the one of the namespace.\<close>

definition RedisMsg_init ::
  "python \<Rightarrow> RedisSpaceEnum \<Rightarrow> string \<Rightarrow> string \<Rightarrow> pyval \<Rightarrow> pyval \<Rightarrow> exn + RedisMsg" where
  "RedisMsg_init P consumer queue_name group_name msg_id msg =
     (case py_getitem msg ''message'' of
        Inl e \<Rightarrow> Inl e
      | Inr m \<Rightarrow>
          (case loads P m of
             Inl e \<Rightarrow> Inl e
           | Inr x \<Rightarrow> Inr \<lparr>m_consumer = consumer, m_queue_name = queue_name,
                          m_group_name = group_name, m_msg_id = msg_id, m_message = x\<rparr>))"

definition ack :: "'w conn \<Rightarrow> RedisMsg \<Rightarrow> 'w \<Rightarrow> (exn + bool) \<times> 'w" where
  "ack conn msg w =
     (case conn (m_consumer msg) (XACK (m_queue_name msg) (m_group_name msg) (m_msg_id msg)) w of
        (Inl e, w') \<Rightarrow> (Inr False, w')
      | (Inr r, w') \<Rightarrow> (Inr True, w'))"

definition get_message :: "RedisMsg \<Rightarrow> pyval" where
  "get_message msg = m_message msg"

definition get_msg_id :: "RedisMsg \<Rightarrow> pyval" where
  "get_msg_id msg = m_msg_id msg"

text \<open>\<^verbatim>\<open>queue_product\<close>: up to three attempts (\<^verbatim>\<open>for _ in range(3)\<close>).\<close>

fun queue_product_loop ::
  "nat \<Rightarrow> python \<Rightarrow> 'w conn \<Rightarrow> string \<Rightarrow> pyval \<Rightarrow> RedisSpaceEnum \<Rightarrow> 'w \<Rightarrow> (exn + bool) \<times> 'w" where
  "queue_product_loop 0 P conn queue msg sp w = (Inr False, w)"
| "queue_product_loop (Suc n) P conn queue msg sp w =
     (case dumps P msg of
        Inl e \<Rightarrow> queue_product_loop n P conn queue msg sp w
      | Inr s \<Rightarrow>
          (case conn sp (XADD queue (PDict [(PStr ''message'', PStr s)])) w of
             (Inl e, w') \<Rightarrow> queue_product_loop n P conn queue msg sp w'
           | (Inr r, w') \<Rightarrow> (Inr True, w')))"

definition queue_product ::
  "python \<Rightarrow> 'w conn \<Rightarrow> string \<Rightarrow> pyval \<Rightarrow> RedisSpaceEnum \<Rightarrow> 'w \<Rightarrow> (exn + bool) \<times> 'w" where
  "queue_product = queue_product_loop 3"

text \<open>\<^verbatim>\<open>any(gi["name"] == group_name for gi in group_info)\<close>\<close>

fun any_group_named :: "pyval list \<Rightarrow> string \<Rightarrow> exn + bool" where
  "any_group_named [] group_name = Inr False"
| "any_group_named (gi # gis) group_name =
     (case py_getitem gi ''name'' of
        Inl e \<Rightarrow> Inl e
      | Inr n \<Rightarrow> if n = PStr group_name then Inr True else any_group_named gis group_name)"

definition has_group :: "pyval \<Rightarrow> string \<Rightarrow> exn + bool" where
  "has_group group_info group_name =
     (case py_iter group_info of
        Inl e \<Rightarrow> Inl e
      | Inr gis \<Rightarrow> any_group_named gis group_name)"

definition create_group ::
  "'w conn \<Rightarrow> string \<Rightarrow> string \<Rightarrow> RedisSpaceEnum \<Rightarrow> 'w \<Rightarrow> (exn + unit) \<times> 'w" where
  "create_group conn queue_name group_name sp w =
     (case conn sp (XGROUP_CREATE queue_name group_name ''0'' True) w of
        (Inl e, w') \<Rightarrow> (Inl e, w')
      | (Inr r, w') \<Rightarrow> (Inr (), w'))"

text \<open>
  The inner \<^verbatim>\<open>try\<close> of \<^verbatim>\<open>queue_consumer\<close>: look the group up and create it when it is
  not listed; on any exception in there, create the stream and the group.
\<close>

definition ensure_group ::
  "'w conn \<Rightarrow> string \<Rightarrow> string \<Rightarrow> RedisSpaceEnum \<Rightarrow> 'w \<Rightarrow> (exn + unit) \<times> 'w" where
  "ensure_group conn queue_name group_name sp w =
     (case conn sp (XINFO_GROUPS queue_name) w of
        (Inl e, w1) \<Rightarrow> create_group conn queue_name group_name sp w1
      | (Inr group_info, w1) \<Rightarrow>
          (case has_group group_info group_name of
             Inl e \<Rightarrow> create_group conn queue_name group_name sp w1
           | Inr True \<Rightarrow> (Inr (), w1)
           | Inr False \<Rightarrow>
               (case conn sp (XGROUP_CREATE queue_name group_name ''0'' True) w1 of
                  (Inl e, w2) \<Rightarrow> create_group conn queue_name group_name sp w2
                | (Inr r, w2) \<Rightarrow> (Inr (), w2))))"

text \<open>
  One pass through the body of the loop of \<^verbatim>\<open>queue_consumer\<close>. \<open>Inr\<close> is a
  \<^verbatim>\<open>return\<close>, \<open>Inl\<close> an exception that reaches the \<^verbatim>\<open>except\<close> of the loop. The
  second component is the local variable \<^verbatim>\<open>msg_id\<close>, which
  \<^verbatim>\<open>msg_id, payload = element_list[0]\<close> rebinds and the next pass reads.
\<close>

definition consume_attempt ::
  "python \<Rightarrow> 'w conn \<Rightarrow> string \<Rightarrow> string \<Rightarrow> string \<Rightarrow> pyval \<Rightarrow> RedisSpaceEnum \<Rightarrow> 'w
     \<Rightarrow> (exn + RedisMsg option) \<times> pyval \<times> 'w" where
  "consume_attempt P conn queue_name group_name consumer_name msg_id sp w =
     (case ensure_group conn queue_name group_name sp w of
        (Inl e, w1) \<Rightarrow> (Inl e, msg_id, w1)
      | (Inr u, w1) \<Rightarrow>
          (case conn sp (XREADGROUP group_name consumer_name 1 5000 queue_name msg_id) w1 of
             (Inl e, w2) \<Rightarrow> (Inl e, msg_id, w2)
           | (Inr messages, w2) \<Rightarrow>
               if \<not> py_bool messages then (Inr None, msg_id, w2)
               else (case py_first messages of
                  Inl e \<Rightarrow> (Inl e, msg_id, w2)
                | Inr m0 \<Rightarrow>
                    (case py_unpack2 m0 of
                       Inl e \<Rightarrow> (Inl e, msg_id, w2)
                     | Inr (stream, element_list) \<Rightarrow>
                         if \<not> py_bool element_list then (Inr None, msg_id, w2)
                         else (case py_first element_list of
                            Inl e \<Rightarrow> (Inl e, msg_id, w2)
                          | Inr el \<Rightarrow>
                              (case py_unpack2 el of
                                 Inl e \<Rightarrow> (Inl e, msg_id, w2)
                               | Inr (new_id, payload) \<Rightarrow>
                                   (case RedisMsg_init P sp queue_name group_name new_id payload of
                                      Inl e \<Rightarrow> (Inl e, new_id, w2)
                                    | Inr msg \<Rightarrow> (Inr (Some msg), new_id, w2))))))))"

text \<open>
  The loop: an exception is logged, unless its text is \<^verbatim>\<open>no such key\<close>, and the next
  pass begins; after three passes \<^verbatim>\<open>None\<close>.
\<close>

fun queue_consumer_loop ::
  "nat \<Rightarrow> python \<Rightarrow> 'w conn \<Rightarrow> string \<Rightarrow> string \<Rightarrow> string \<Rightarrow> pyval \<Rightarrow> RedisSpaceEnum \<Rightarrow> 'w
     \<Rightarrow> (exn + RedisMsg option) \<times> 'w" where
  "queue_consumer_loop 0 P conn queue_name group_name consumer_name msg_id sp w = (Inr None, w)"
| "queue_consumer_loop (Suc n) P conn queue_name group_name consumer_name msg_id sp w =
     (case consume_attempt P conn queue_name group_name consumer_name msg_id sp w of
        (Inr r, msg_id', w') \<Rightarrow> (Inr r, w')
      | (Inl e, msg_id', w') \<Rightarrow>
          queue_consumer_loop n P conn queue_name group_name consumer_name msg_id' sp w')"

definition queue_consumer ::
  "python \<Rightarrow> 'w conn \<Rightarrow> string \<Rightarrow> string \<Rightarrow> string \<Rightarrow> pyval \<Rightarrow> RedisSpaceEnum \<Rightarrow> 'w
     \<Rightarrow> (exn + RedisMsg option) \<times> 'w" where
  "queue_consumer = queue_consumer_loop 3"

definition get_pending_msg ::
  "'w conn \<Rightarrow> string \<Rightarrow> string \<Rightarrow> RedisSpaceEnum \<Rightarrow> 'w \<Rightarrow> (exn + pyval) \<times> 'w" where
  "get_pending_msg conn queue group_name sp w =
     (case conn sp (XPENDING_RANGE queue group_name ''-'' ''+'' 10) w of
        (Inl e, w') \<Rightarrow> (Inr (PList []), w')
      | (Inr messages, w') \<Rightarrow> (Inr messages, w'))"

fun requeue_msg_loop ::
  "nat \<Rightarrow> 'w conn \<Rightarrow> string \<Rightarrow> string \<Rightarrow> pyval \<Rightarrow> RedisSpaceEnum \<Rightarrow> 'w \<Rightarrow> (exn + bool) \<times> 'w" where
  "requeue_msg_loop 0 conn queue group_name msg_id sp w = (Inr False, w)"
| "requeue_msg_loop (Suc n) conn queue group_name msg_id sp w =
     (case conn sp (XRANGE queue msg_id msg_id) w of
        (Inl e, w1) \<Rightarrow> requeue_msg_loop n conn queue group_name msg_id sp w1
      | (Inr messages, w1) \<Rightarrow>
          if py_bool messages
          then (case py_first messages of
                  Inl e \<Rightarrow> requeue_msg_loop n conn queue group_name msg_id sp w1
                | Inr m0 \<Rightarrow>
                    (case py_second m0 of
                       Inl e \<Rightarrow> requeue_msg_loop n conn queue group_name msg_id sp w1
                     | Inr flds \<Rightarrow>
                         (case conn sp (XADD queue flds) w1 of
                            (Inl e, w2) \<Rightarrow> requeue_msg_loop n conn queue group_name msg_id sp w2
                          | (Inr r, w2) \<Rightarrow>
                              (case conn sp (XACK queue group_name msg_id) w2 of
                                 (Inl e, w3) \<Rightarrow>
                                   requeue_msg_loop n conn queue group_name msg_id sp w3
                               | (Inr a, w3) \<Rightarrow> (Inr True, w3)))))
          else requeue_msg_loop n conn queue group_name msg_id sp w1)"

definition requeue_msg ::
  "'w conn \<Rightarrow> string \<Rightarrow> string \<Rightarrow> pyval \<Rightarrow> RedisSpaceEnum \<Rightarrow> 'w \<Rightarrow> (exn + bool) \<times> 'w" where
  "requeue_msg = requeue_msg_loop 3"

text \<open>\<^verbatim>\<open>for group in groups: if group["name"] == group_name: return group\<close>\<close>

fun find_group :: "pyval list \<Rightarrow> string \<Rightarrow> exn + pyval option" where
  "find_group [] group_name = Inr None"
| "find_group (g # gs) group_name =
     (case py_getitem g ''name'' of
        Inl e \<Rightarrow> Inl e
      | Inr n \<Rightarrow> if n = PStr group_name then Inr (Some g) else find_group gs group_name)"

fun queue_info_loop ::
  "nat \<Rightarrow> 'w conn \<Rightarrow> string \<Rightarrow> string \<Rightarrow> RedisSpaceEnum \<Rightarrow> 'w \<Rightarrow> (exn + pyval) \<times> 'w" where
  "queue_info_loop 0 conn queue group_name sp w = (Inr PNone, w)"
| "queue_info_loop (Suc n) conn queue group_name sp w =
     (case conn sp (XINFO_GROUPS queue) w of
        (Inl e, w') \<Rightarrow> queue_info_loop n conn queue group_name sp w'
      | (Inr groups, w') \<Rightarrow>
          (case py_iter groups of
             Inl e \<Rightarrow> queue_info_loop n conn queue group_name sp w'
           | Inr gs \<Rightarrow>
               (case find_group gs group_name of
                  Inl e \<Rightarrow> queue_info_loop n conn queue group_name sp w'
                | Inr (Some g) \<Rightarrow> (Inr g, w')
                | Inr None \<Rightarrow> queue_info_loop n conn queue group_name sp w')))"

definition queue_info ::
  "'w conn \<Rightarrow> string \<Rightarrow> string \<Rightarrow> RedisSpaceEnum \<Rightarrow> 'w \<Rightarrow> (exn + pyval) \<times> 'w" where
  "queue_info = queue_info_loop 3"

text \<open>
  \<^verbatim>\<open>get_unacked_iterator\<close> is a generator. Its state between two items: the queues still
  to visit (the first one is the queue whose \<^verbatim>\<open>while\<close> loop is running when
  \<open>u_current_min\<close> is set) and the local variable \<^verbatim>\<open>group_info\<close>, which stays bound to the
  last reply when a later lookup raises. \<open>unacked_next\<close> runs the generator to its next
  \<^verbatim>\<open>yield\<close>; \<open>None\<close> is its end, also when the outer \<^verbatim>\<open>except\<close> ends it.
\<close>

record unacked_state =
  u_queues :: "string list"
  u_current_min :: "pyval option"
  u_group_info :: "pyval option"

definition unacked_poll ::
  "python \<Rightarrow> 'w conn \<Rightarrow> string \<Rightarrow> string \<Rightarrow> RedisSpaceEnum \<Rightarrow> string \<Rightarrow> string list \<Rightarrow> pyval
     \<Rightarrow> pyval option \<Rightarrow> ('w \<Rightarrow> (RedisMsg \<times> unacked_state) option \<times> 'w) \<Rightarrow> 'w
     \<Rightarrow> (RedisMsg \<times> unacked_state) option \<times> 'w" where
  "unacked_poll P conn group_name consumer_name sp q qs current_min gi rest w =
     (case queue_consumer P conn q group_name consumer_name current_min sp w of
        (Inl e, w') \<Rightarrow> (None, w')
      | (Inr None, w') \<Rightarrow> rest w'
      | (Inr (Some payload), w') \<Rightarrow>
          (Some (payload, \<lparr>u_queues = q # qs, u_current_min = Some (get_msg_id payload),
                           u_group_info = gi\<rparr>), w'))"

fun unacked_scan ::
  "python \<Rightarrow> 'w conn \<Rightarrow> string \<Rightarrow> string \<Rightarrow> RedisSpaceEnum \<Rightarrow> string list \<Rightarrow> pyval option \<Rightarrow> 'w
     \<Rightarrow> (RedisMsg \<times> unacked_state) option \<times> 'w" where
  "unacked_scan P conn group_name consumer_name sp [] gi w = (None, w)"
| "unacked_scan P conn group_name consumer_name sp (q # qs) gi w =
     (case conn sp (XINFO_GROUPS q) w of
        (Inl e, w1) \<Rightarrow>
          if exn_str e = ''no such key''
          then unacked_scan P conn group_name consumer_name sp qs gi w1
          else (case gi of
                  None \<Rightarrow> (None, w1)
                | Some group_info \<Rightarrow>
                    (case has_group group_info group_name of
                       Inl e' \<Rightarrow> (None, w1)
                     | Inr False \<Rightarrow> unacked_scan P conn group_name consumer_name sp qs gi w1
                     | Inr True \<Rightarrow>
                         unacked_poll P conn group_name consumer_name sp q qs (PInt 0) gi
                           (\<lambda>w2. unacked_scan P conn group_name consumer_name sp qs gi w2) w1))
      | (Inr group_info, w1) \<Rightarrow>
          (case has_group group_info group_name of
             Inl e' \<Rightarrow> (None, w1)
           | Inr False \<Rightarrow>
               unacked_scan P conn group_name consumer_name sp qs (Some group_info) w1
           | Inr True \<Rightarrow>
               unacked_poll P conn group_name consumer_name sp q qs (PInt 0) (Some group_info)
                 (\<lambda>w2. unacked_scan P conn group_name consumer_name sp qs (Some group_info) w2)
                 w1))"

definition get_unacked_iterator :: "string list \<Rightarrow> unacked_state" where
  "get_unacked_iterator queue_names =
     \<lparr>u_queues = queue_names, u_current_min = None, u_group_info = None\<rparr>"

definition unacked_next ::
  "python \<Rightarrow> 'w conn \<Rightarrow> string \<Rightarrow> string \<Rightarrow> RedisSpaceEnum \<Rightarrow> unacked_state \<Rightarrow> 'w
     \<Rightarrow> (RedisMsg \<times> unacked_state) option \<times> 'w" where
  "unacked_next P conn group_name consumer_name sp st w =
     (case (u_current_min st, u_queues st) of
        (Some current_min, q # qs) \<Rightarrow>
          unacked_poll P conn group_name consumer_name sp q qs current_min (u_group_info st)
            (\<lambda>w2. unacked_scan P conn group_name consumer_name sp qs (u_group_info st) w2) w
      | (_, qs) \<Rightarrow> unacked_scan P conn group_name consumer_name sp qs (u_group_info st) w)"

section \<open>RedisDistributedLock\<close>

record RedisDistributedLock =
  space :: RedisSpaceEnum
  lock_key :: string
  lock_value :: string
  timeout :: int
  blocking_timeout :: int
  acquired :: bool

text \<open>\<^verbatim>\<open>__init__\<close>: \<^verbatim>\<open>self.lock_value = lock_value or str(uuid.uuid4())\<close>; \<open>uuid4\<close> is the
  token the generator would give.\<close>

definition RedisDistributedLock_init ::
  "string \<Rightarrow> RedisSpaceEnum \<Rightarrow> string \<Rightarrow> string option \<Rightarrow> int \<Rightarrow> int \<Rightarrow> RedisDistributedLock" where
  "RedisDistributedLock_init uuid4 sp key val tmo blocking =
     \<lparr>space = sp, lock_key = key,
      lock_value = (case val of None \<Rightarrow> uuid4 | Some v \<Rightarrow> if v = [] then uuid4 else v),
      timeout = tmo, blocking_timeout = blocking, acquired = False\<rparr>"

definition get_lock ::
  "string \<Rightarrow> string \<Rightarrow> string option \<Rightarrow> int \<Rightarrow> int \<Rightarrow> RedisSpaceEnum \<Rightarrow> RedisDistributedLock" where
  "get_lock uuid4 key val tmo blocking sp = RedisDistributedLock_init uuid4 sp key val tmo blocking"

definition acquire ::
  "'w conn \<Rightarrow> RedisDistributedLock \<Rightarrow> 'w \<Rightarrow> (exn + bool) \<times> RedisDistributedLock \<times> 'w" where
  "acquire conn L w =
     (case delete_if_equal conn (lock_key L) (lock_value L) (space L) w of
        (Inl e, w1) \<Rightarrow> (Inr False, L, w1)
      | (Inr cleared, w1) \<Rightarrow>
          (case conn (space L) (SET_NX_EX (lock_key L) (lock_value L) (timeout L)) w1 of
             (Inl e, w2) \<Rightarrow> (Inr False, L, w2)
           | (Inr result, w2) \<Rightarrow>
               (Inr (py_bool result), L\<lparr>acquired := py_bool result\<rparr>, w2)))"

definition release ::
  "'w conn \<Rightarrow> RedisDistributedLock \<Rightarrow> 'w \<Rightarrow> (exn + bool) \<times> RedisDistributedLock \<times> 'w" where
  "release conn L w =
     (if acquired L
      then (case delete_if_equal conn (lock_key L) (lock_value L) (space L) w of
              (Inl e, w') \<Rightarrow> (Inr False, L, w')
            | (Inr result, w') \<Rightarrow> (Inr result, L\<lparr>acquired := False\<rparr>, w'))
      else (Inr True, L, w))"




section \<open>The store\<close>

text \<open>
  What the store does with a command, as the Redis documentation describes it, for the
  commands the lock, the script, the string and hash operations and the stream queue send.
  One keyspace per namespace; a key holds a string (with the expiry it was given, in
  seconds), a hash or a stream. List, set and sorted-set commands are outside this model
  (the store answers them with an error); what the facade does with them is proved for
  every client.
\<close>

record stream_group =
  last_delivered :: nat
  pel :: "(nat \<times> string) list"

record stream =
  entries :: "(nat \<times> (string \<times> string) list) list"
  last_id :: nat
  groups :: "(string \<times> stream_group) list"

datatype rvalue =
    VString string "int option"
  | VHash "(string \<times> string) list"
  | VStream stream

type_synonym redis_db = "string \<rightharpoonup> rvalue"

definition wrongtype :: exn where
  "wrongtype = RedisError ''WRONGTYPE Operation against a key holding the wrong kind of value''"

definition nogroup :: exn where
  "nogroup = RedisError ''NOGROUP No such key or consumer group''"

text \<open>
  The script \<^verbatim>\<open>delete_if_equal\<close>:
  \<^verbatim>\<open>local current_value = redis.call('get', KEYS[1])
  if current_value and current_value == ARGV[1] then redis.call('del', KEYS[1]) return 1 end
  return 0\<close>
  A script runs as one step of the store. \<^verbatim>\<open>get\<close> gives false for a missing key and
  fails on a key that holds no string.
\<close>

definition lua_get :: "redis_db \<Rightarrow> string \<Rightarrow> exn + string option" where
  "lua_get db k = (case db k of
                     None \<Rightarrow> Inr None
                   | Some (VString v t) \<Rightarrow> Inr (Some v)
                   | Some other \<Rightarrow> Inl wrongtype)"

fun run_script :: "lua \<Rightarrow> string list \<Rightarrow> string list \<Rightarrow> redis_db \<Rightarrow> (exn + pyval) \<times> redis_db" where
  "run_script Lua_delete_if_equal [] argv db =
     (Inl (RedisError ''Lua redis lib command arguments must be strings or integers''), db)"
| "run_script Lua_delete_if_equal (key1 # ks) argv db =
     (case lua_get db key1 of
        Inl e \<Rightarrow> (Inl e, db)
      | Inr current_value \<Rightarrow>
          if current_value \<noteq> None \<and> (case argv of [] \<Rightarrow> False | a # as \<Rightarrow> current_value = Some a)
          then (Inr (PInt 1), db(key1 := None))
          else (Inr (PInt 0), db))"
| "run_script Lua_empty ks argv db = (Inr PNone, db)"

definition invalid_expire :: exn where
  "invalid_expire = RedisError ''invalid expire time''"

definition set_nx_ex :: "string \<Rightarrow> string \<Rightarrow> int \<Rightarrow> redis_db \<Rightarrow> (exn + pyval) \<times> redis_db" where
  "set_nx_ex k v ex db =
     (if ex \<le> 0 then (Inl invalid_expire, db)
      else if db k = None then (Inr (PBool True), db(k \<mapsto> VString v (Some ex)))
      else (Inr PNone, db))"

fun upd_field :: "string \<Rightarrow> string \<Rightarrow> (string \<times> string) list \<Rightarrow> (string \<times> string) list" where
  "upd_field f v [] = [(f, v)]"
| "upd_field f v ((g, u) # fs) = (if g = f then (f, v) # fs else (g, u) # upd_field f v fs)"

fun upd_group ::
  "string \<Rightarrow> stream_group \<Rightarrow> (string \<times> stream_group) list \<Rightarrow> (string \<times> stream_group) list" where
  "upd_group g gr [] = [(g, gr)]"
| "upd_group g gr ((h, x) # gs) = (if h = g then (g, gr) # gs else (h, x) # upd_group g gr gs)"

definition py_fields :: "(string \<times> string) list \<Rightarrow> pyval" where
  "py_fields fs = PDict (map (\<lambda>(k, v). (PStr k, PStr v)) fs)"

definition py_entry :: "nat \<times> (string \<times> string) list \<Rightarrow> pyval" where
  "py_entry en = PTuple [PSid (fst en), py_fields (snd en)]"

definition py_group :: "string \<times> stream_group \<Rightarrow> pyval" where
  "py_group g = PDict [(PStr ''name'', PStr (fst g)),
                       (PStr ''pending'', PInt (int (length (pel (snd g))))),
                       (PStr ''last-delivered-id'', PSid (last_delivered (snd g)))]"

definition py_pending :: "nat \<times> string \<Rightarrow> pyval" where
  "py_pending pe = PDict [(PStr ''message_id'', PSid (fst pe)), (PStr ''consumer'', PStr (snd pe))]"

text \<open>The field-value pairs of an entry to append: a non-empty dict of strings.\<close>

fun field_pairs :: "(pyval \<times> pyval) list \<Rightarrow> (string \<times> string) list option" where
  "field_pairs [] = Some []"
| "field_pairs ((PStr k, PStr v) # kvs) = map_option ((#) (k, v)) (field_pairs kvs)"
| "field_pairs (kv # kvs) = None"

fun entry_fields :: "pyval \<Rightarrow> (string \<times> string) list option" where
  "entry_fields (PDict []) = None"
| "entry_fields (PDict kvs) = field_pairs kvs"
| "entry_fields v = None"

text \<open>A read position: \<^verbatim>\<open>>\<close> is written \<open>None\<close>, an ID or \<^verbatim>\<open>0\<close> its number.\<close>

fun read_from :: "pyval \<Rightarrow> (nat option) option" where
  "read_from (PStr s) = (if s = ''>'' then Some None else if s = ''0'' then Some (Some 0) else None)"
| "read_from (PSid n) = Some (Some n)"
| "read_from (PInt i) = (if i = 0 then Some (Some 0) else None)"
| "read_from v = None"

fun range_bound :: "pyval \<Rightarrow> nat option" where
  "range_bound (PSid n) = Some n"
| "range_bound v = None"

definition empty_stream :: stream where
  "empty_stream = \<lparr>entries = [], last_id = 0, groups = []\<rparr>"

definition xadd :: "string \<Rightarrow> pyval \<Rightarrow> redis_db \<Rightarrow> (exn + pyval) \<times> redis_db" where
  "xadd q flds db =
     (case entry_fields flds of
        None \<Rightarrow> (Inl (RedisError ''Invalid input''), db)
      | Some fs \<Rightarrow>
          (case db q of
             None \<Rightarrow> (Inr (PSid 1), db(q \<mapsto> VStream (empty_stream\<lparr>entries := [(1, fs)], last_id := 1\<rparr>)))
           | Some (VStream s) \<Rightarrow>
               (Inr (PSid (Suc (last_id s))),
                db(q \<mapsto> VStream (s\<lparr>entries := entries s @ [(Suc (last_id s), fs)],
                                     last_id := Suc (last_id s)\<rparr>)))
           | Some other \<Rightarrow> (Inl wrongtype, db)))"

definition xrange :: "string \<Rightarrow> pyval \<Rightarrow> pyval \<Rightarrow> redis_db \<Rightarrow> (exn + pyval) \<times> redis_db" where
  "xrange q lo hi db =
     (case (range_bound lo, range_bound hi) of
        (Some l, Some h) \<Rightarrow>
          (case db q of
             None \<Rightarrow> (Inr (PList []), db)
           | Some (VStream s) \<Rightarrow>
               (Inr (PList (map py_entry (filter (\<lambda>en. l \<le> fst en \<and> fst en \<le> h) (entries s)))), db)
           | Some other \<Rightarrow> (Inl wrongtype, db))
      | _ \<Rightarrow> (Inl (RedisError ''Invalid stream ID specified as stream command argument''), db))"

definition xack :: "string \<Rightarrow> string \<Rightarrow> pyval \<Rightarrow> redis_db \<Rightarrow> (exn + pyval) \<times> redis_db" where
  "xack q g mid db =
     (case range_bound mid of
        None \<Rightarrow> (Inl (RedisError ''Invalid stream ID specified as stream command argument''), db)
      | Some i \<Rightarrow>
          (case db q of
             None \<Rightarrow> (Inr (PInt 0), db)
           | Some (VStream s) \<Rightarrow>
               (case map_of (groups s) g of
                  None \<Rightarrow> (Inr (PInt 0), db)
                | Some gr \<Rightarrow>
                    if i \<in> fst ` set (pel gr)
                    then (Inr (PInt 1),
                          db(q \<mapsto> VStream (s\<lparr>groups :=
                               upd_group g (gr\<lparr>pel := filter (\<lambda>pe. fst pe \<noteq> i) (pel gr)\<rparr>) (groups s)\<rparr>)))
                    else (Inr (PInt 0), db))
           | Some other \<Rightarrow> (Inl wrongtype, db)))"

definition xinfo_groups :: "string \<Rightarrow> redis_db \<Rightarrow> (exn + pyval) \<times> redis_db" where
  "xinfo_groups q db =
     (case db q of
        None \<Rightarrow> (Inl (RedisError ''no such key''), db)
      | Some (VStream s) \<Rightarrow> (Inr (PList (map py_group (groups s))), db)
      | Some other \<Rightarrow> (Inl wrongtype, db))"

definition xgroup_create ::
  "string \<Rightarrow> string \<Rightarrow> string \<Rightarrow> bool \<Rightarrow> redis_db \<Rightarrow> (exn + pyval) \<times> redis_db" where
  "xgroup_create q g start mkstream db =
     (if start \<noteq> ''0'' \<and> start \<noteq> ''$''
      then (Inl (RedisError ''Invalid stream ID specified as stream command argument''), db)
      else (case db q of
              None \<Rightarrow>
                if mkstream
                then (Inr (PBool True),
                      db(q \<mapsto> VStream (empty_stream\<lparr>groups := [(g, \<lparr>last_delivered = 0, pel = []\<rparr>)]\<rparr>)))
                else (Inl (RedisError ''The XGROUP subcommand requires the key to exist''), db)
            | Some (VStream s) \<Rightarrow>
                if map_of (groups s) g \<noteq> None
                then (Inl (RedisError ''BUSYGROUP Consumer Group name already exists''), db)
                else (Inr (PBool True),
                      db(q \<mapsto> VStream (s\<lparr>groups := groups s @
                           [(g, \<lparr>last_delivered = (if start = ''0'' then 0 else last_id s), pel = []\<rparr>)]\<rparr>)))
            | Some other \<Rightarrow> (Inl wrongtype, db)))"

text \<open>
  \<^verbatim>\<open>XREADGROUP\<close>. From \<^verbatim>\<open>>\<close>: the entries after the group's last delivered ID, at most
  \<open>count\<close> of them; they become pending for the consumer; when there is none, the call
  blocks for its window and answers with nothing. From an ID: the entries pending for this
  consumer after that ID; it never blocks and answers with the stream and a possibly empty
  list.
\<close>

definition xreadgroup ::
  "string \<Rightarrow> string \<Rightarrow> int \<Rightarrow> int \<Rightarrow> string \<Rightarrow> pyval \<Rightarrow> redis_db \<Rightarrow> (exn + pyval) \<times> redis_db" where
  "xreadgroup g c count block q pos db =
     (case read_from pos of
        None \<Rightarrow> (Inl (RedisError ''Invalid stream ID specified as stream command argument''), db)
      | Some from \<Rightarrow>
          (case db q of
             Some (VStream s) \<Rightarrow>
               (case map_of (groups s) g of
                  None \<Rightarrow> (Inl nogroup, db)
                | Some gr \<Rightarrow>
                    (case from of
                       None \<Rightarrow>
                         (let new = take (nat count) (filter (\<lambda>en. last_delivered gr < fst en) (entries s))
                          in if new = [] then (Inr (PList []), db)
                             else (Inr (PList [PList [PStr q, PList (map py_entry new)]]),
                                   db(q \<mapsto> VStream (s\<lparr>groups := upd_group g
                                        (gr\<lparr>last_delivered := fst (last new),
                                            pel := pel gr @ map (\<lambda>en. (fst en, c)) new\<rparr>) (groups s)\<rparr>))))
                     | Some i \<Rightarrow>
                         (let mine = filter (\<lambda>en. i < fst en \<and> (fst en, c) \<in> set (pel gr)) (entries s)
                          in (Inr (PList [PList [PStr q, PList (map py_entry (take (nat count) mine))]]), db))))
           | Some other \<Rightarrow> (Inl wrongtype, db)
           | None \<Rightarrow> (Inl nogroup, db)))"

definition xpending_range ::
  "string \<Rightarrow> string \<Rightarrow> int \<Rightarrow> redis_db \<Rightarrow> (exn + pyval) \<times> redis_db" where
  "xpending_range q g count db =
     (case db q of
        Some (VStream s) \<Rightarrow>
          (case map_of (groups s) g of
             None \<Rightarrow> (Inl nogroup, db)
           | Some gr \<Rightarrow> (Inr (PList (map py_pending (take (nat count) (pel gr)))), db))
      | Some other \<Rightarrow> (Inl wrongtype, db)
      | None \<Rightarrow> (Inl nogroup, db))"

fun mget_values :: "redis_db \<Rightarrow> string list \<Rightarrow> pyval list" where
  "mget_values db [] = []"
| "mget_values db (k # ks) =
     (case db k of Some (VString v t) \<Rightarrow> PStr v | _ \<Rightarrow> PNone) # mget_values db ks"

fun mset_values :: "(string \<times> string) list \<Rightarrow> redis_db \<Rightarrow> redis_db" where
  "mset_values [] db = db"
| "mset_values ((k, v) # kvs) db = mset_values kvs (db(k \<mapsto> VString v None))"

definition unsupported :: exn where
  "unsupported = RedisError ''command outside the model''"

fun redis_exec :: "command \<Rightarrow> redis_db \<Rightarrow> (exn + pyval) \<times> redis_db" where
  "redis_exec PING db = (Inr (PBool True), db)"
| "redis_exec (EXISTS k) db = (Inr (PInt (if db k = None then 0 else 1)), db)"
| "redis_exec (GET k) db =
     (case db k of
        None \<Rightarrow> (Inr PNone, db)
      | Some (VString v t) \<Rightarrow> (Inr (PStr v), db)
      | Some other \<Rightarrow> (Inl wrongtype, db))"
| "redis_exec (SETEX k ex v) db =
     (case v of
        PStr s \<Rightarrow> if ex \<le> 0 then (Inl invalid_expire, db)
                  else (Inr (PBool True), db(k \<mapsto> VString s (Some ex)))
      | _ \<Rightarrow> (Inl unsupported, db))"
| "redis_exec (SET_NX_EX k v ex) db = set_nx_ex k v ex db"
| "redis_exec (DEL k) db = (Inr (PInt (if db k = None then 0 else 1)), db(k := None))"
| "redis_exec (EVALSCRIPT script ks argv) db = run_script script ks argv db"
| "redis_exec (HSET name f v) db =
     (case db name of
        None \<Rightarrow> (Inr (PInt 1), db(name \<mapsto> VHash [(f, v)]))
      | Some (VHash fs) \<Rightarrow>
          (Inr (PInt (if map_of fs f = None then 1 else 0)), db(name \<mapsto> VHash (upd_field f v fs)))
      | Some other \<Rightarrow> (Inl wrongtype, db))"
| "redis_exec (HGET name f) db =
     (case db name of
        None \<Rightarrow> (Inr PNone, db)
      | Some (VHash fs) \<Rightarrow> (Inr (case map_of fs f of None \<Rightarrow> PNone | Some v \<Rightarrow> PStr v), db)
      | Some other \<Rightarrow> (Inl wrongtype, db))"
| "redis_exec (HGETALL name) db =
     (case db name of
        None \<Rightarrow> (Inr (PDict []), db)
      | Some (VHash fs) \<Rightarrow> (Inr (py_fields fs), db)
      | Some other \<Rightarrow> (Inl wrongtype, db))"
| "redis_exec (HDEL name fs') db =
     (case db name of
        None \<Rightarrow> (Inr (PInt 0), db)
      | Some (VHash fs) \<Rightarrow>
          (let kept = filter (\<lambda>fv. fst fv \<notin> set fs') fs
           in (Inr (PInt (int (length fs) - int (length kept))),
               if kept = [] then db(name := None) else db(name \<mapsto> VHash kept)))
      | Some other \<Rightarrow> (Inl wrongtype, db))"
| "redis_exec (EXPIRE k seconds) db =
     (case db k of
        Some (VString v t) \<Rightarrow>
          if seconds \<le> 0 then (Inr (PBool True), db(k := None))
          else (Inr (PBool True), db(k \<mapsto> VString v (Some seconds)))
      | Some other \<Rightarrow> (Inl unsupported, db)
      | None \<Rightarrow> (Inr (PBool False), db))"
| "redis_exec (TTL k) db =
     (case db k of
        None \<Rightarrow> (Inr (PInt (- 2)), db)
      | Some (VString v (Some t)) \<Rightarrow> (Inr (PInt t), db)
      | Some other \<Rightarrow> (Inr (PInt (- 1)), db))"
| "redis_exec (PIPELINE_SET_NX_EX k v ex) db =
     (case set_nx_ex k v ex db of
        (Inl e, db') \<Rightarrow> (Inl e, db')
      | (Inr r, db') \<Rightarrow> (Inr (PList [r]), db'))"
| "redis_exec (XADD q flds) db = xadd q flds db"
| "redis_exec (XINFO_GROUPS q) db = xinfo_groups q db"
| "redis_exec (XGROUP_CREATE q g start mkstream) db = xgroup_create q g start mkstream db"
| "redis_exec (XREADGROUP g c count block q pos) db = xreadgroup g c count block q pos db"
| "redis_exec (XACK q g mid) db = xack q g mid db"
| "redis_exec (XPENDING_RANGE q g lo hi count) db = xpending_range q g count db"
| "redis_exec (XRANGE q lo hi) db = xrange q lo hi db"
| "redis_exec (MGET ks) db = (Inr (PList (mget_values db ks)), db)"
| "redis_exec (MSET kvs) db = (Inr (PBool True), mset_values kvs db)"
| "redis_exec other db = (Inl unsupported, db)"

subsection \<open>A simulated connection\<close>

text \<open>
  The world a call runs in: the keyspace of every namespace, a clock in milliseconds, the
  calls made so far with their outcomes, and what the environment does around each coming call (\<open>schedule\<close>,
  one entry per call, in order): what other clients and key expiry do to the keyspace
  before the command runs, how long the call takes, and whether it raises instead of
  running. A call that raises leaves the keyspace as it found it. When the list is used up
  the environment is quiet: nothing else writes, calls take no time and none fails.
\<close>

datatype ext = ExtDel string | ExtSet string string

record call_env =
  raises :: "exn option"
  took :: nat
  others :: "(RedisSpaceEnum \<times> ext) list"

record sim =
  dbs :: "RedisSpaceEnum \<Rightarrow> redis_db"
  clock :: int
  schedule :: "call_env list"
  trace :: "(RedisSpaceEnum \<times> command \<times> (exn + pyval)) list"

fun apply_ext :: "ext \<Rightarrow> redis_db \<Rightarrow> redis_db" where
  "apply_ext (ExtDel k) db = db(k := None)"
| "apply_ext (ExtSet k v) db = db(k \<mapsto> VString v None)"

fun apply_others ::
  "(RedisSpaceEnum \<times> ext) list \<Rightarrow> (RedisSpaceEnum \<Rightarrow> redis_db) \<Rightarrow> (RedisSpaceEnum \<Rightarrow> redis_db)" where
  "apply_others [] d = d"
| "apply_others ((sp, x) # xs) d = apply_others xs (d(sp := apply_ext x (d sp)))"

definition run_on :: "RedisSpaceEnum \<Rightarrow> command \<Rightarrow> sim \<Rightarrow> (exn + pyval) \<times> sim" where
  "run_on sp cmd w =
     (case redis_exec cmd (dbs w sp) of
        (r, db') \<Rightarrow> (r, w\<lparr>dbs := (dbs w)(sp := db'), trace := trace w @ [(sp, cmd, r)]\<rparr>))"

definition sim_conn :: "sim conn" where
  "sim_conn sp cmd w =
     (case schedule w of
        [] \<Rightarrow> run_on sp cmd w
      | e # es \<Rightarrow>
          (let w0 = w\<lparr>dbs := apply_others (others e) (dbs w),
                      clock := clock w + int (took e), schedule := es\<rparr>
           in case raises e of
                Some x \<Rightarrow> (Inl x, w0\<lparr>trace := trace w0 @ [(sp, cmd, Inl x)]\<rparr>)
              | None \<Rightarrow> run_on sp cmd w0))"




text \<open>No other client and no expiry touches the keyspace during the calls to come.\<close>

definition alone :: "sim \<Rightarrow> bool" where
  "alone w = list_all (\<lambda>e. others e = []) (schedule w)"

text \<open>Every coming call takes at most \<open>d\<close> milliseconds.\<close>

definition calls_within :: "nat \<Rightarrow> sim \<Rightarrow> bool" where
  "calls_within d w = list_all (\<lambda>e. took e \<le> d) (schedule w)"

text \<open>The calls made between two worlds.\<close>

definition calls_since :: "sim \<Rightarrow> sim \<Rightarrow> (RedisSpaceEnum \<times> command \<times> (exn + pyval)) list" where
  "calls_since w w' = drop (length (trace w)) (trace w')"

definition commands_since :: "sim \<Rightarrow> sim \<Rightarrow> (RedisSpaceEnum \<times> command) list" where
  "commands_since w w' = map (\<lambda>c. (fst c, fst (snd c))) (calls_since w w')"


text \<open>Worlds to run the operations in: an empty store in a quiet environment, and the same
  with a lock key held under a given token.\<close>

definition world0 :: sim where
  "world0 = \<lparr>dbs = (\<lambda>sp. Map.empty), clock = 0, schedule = [], trace = []\<rparr>"

definition held_by :: "string \<Rightarrow> sim" where
  "held_by token = world0\<lparr>dbs := (\<lambda>sp. Map.empty)(DEFAULT := [''job:42'' \<mapsto> VString token (Some 10)])\<rparr>"

definition lock_A :: RedisDistributedLock where
  "lock_A = get_lock ''uuid-A'' ''job:42'' (Some ''tokenA'') 10 1 DEFAULT"

section \<open>What the design says compare-and-delete is\<close>

text \<open>
  The design's words for \<^verbatim>\<open>compareAndDelete\<close>: read the key; if its current value equals
  the expected value, delete it and return 1; else return 0.
\<close>

definition string_value :: "redis_db \<Rightarrow> string \<Rightarrow> string option" where
  "string_value db k = (case db k of Some (VString s t) \<Rightarrow> Some s | _ \<Rightarrow> None)"

definition compare_and_delete_spec :: "redis_db \<Rightarrow> string \<Rightarrow> string \<Rightarrow> bool \<times> redis_db" where
  "compare_and_delete_spec db key expected =
     (if string_value db key = Some expected then (True, db(key := None)) else (False, db))"

section \<open>Concurrent acquisitions\<close>

text \<open>
  Several lock instances call \<^verbatim>\<open>acquire\<close> at once. An instance gives way to the others
  at its two \<^verbatim>\<open>await\<close>s only, and the store runs one command at a time, so a run is an
  order in which the instances take their next step: the compare-and-delete of
  \<^verbatim>\<open>acquire\<close> from \<open>Idle\<close>, its conditional set from \<open>Cleared\<close>; \<open>Returned b\<close> is
  an instance whose call has returned \<open>b\<close>.
\<close>

datatype pc = Idle | Cleared | Returned bool

record proc =
  p_lock :: RedisDistributedLock
  p_pc :: pc

definition proc_step :: "'w conn \<Rightarrow> proc \<Rightarrow> 'w \<Rightarrow> proc \<times> 'w" where
  "proc_step conn p w =
     (case p_pc p of
        Idle \<Rightarrow>
          (case delete_if_equal conn (lock_key (p_lock p)) (lock_value (p_lock p)) (space (p_lock p)) w of
             (Inl e, w1) \<Rightarrow> (p\<lparr>p_pc := Returned False\<rparr>, w1)
           | (Inr cleared, w1) \<Rightarrow> (p\<lparr>p_pc := Cleared\<rparr>, w1))
      | Cleared \<Rightarrow>
          (case conn (space (p_lock p))
                  (SET_NX_EX (lock_key (p_lock p)) (lock_value (p_lock p)) (timeout (p_lock p))) w of
             (Inl e, w2) \<Rightarrow> (p\<lparr>p_pc := Returned False\<rparr>, w2)
           | (Inr result, w2) \<Rightarrow>
               (\<lparr>p_lock = (p_lock p)\<lparr>acquired := py_bool result\<rparr>,
                 p_pc = Returned (py_bool result)\<rparr>, w2))
      | Returned b \<Rightarrow> (p, w))"

fun run_acquires :: "'w conn \<Rightarrow> nat list \<Rightarrow> proc list \<times> 'w \<Rightarrow> proc list \<times> 'w" where
  "run_acquires conn [] c = c"
| "run_acquires conn (i # order) c =
     (if i < length (fst c)
      then (case proc_step conn (fst c ! i) (snd c) of
              (p', w') \<Rightarrow> run_acquires conn order ((fst c)[i := p'], w'))
      else run_acquires conn order c)"

text \<open>A fresh instance about to call \<^verbatim>\<open>acquire\<close>.\<close>

definition fresh :: "proc \<Rightarrow> bool" where
  "fresh p = (p_pc p = Idle \<and> \<not> acquired (p_lock p))"

text \<open>Two instances on one lock key of one namespace.\<close>

definition same_lock :: "proc \<Rightarrow> proc \<Rightarrow> bool" where
  "same_lock p q = (space (p_lock p) = space (p_lock q) \<and> lock_key (p_lock p) = lock_key (p_lock q))"

text \<open>Each instance has its own token: instances on one key differ in their tokens.\<close>

definition own_tokens :: "proc list \<Rightarrow> bool" where
  "own_tokens ps =
     (\<forall>i < length ps. \<forall>j < length ps.
        i \<noteq> j \<longrightarrow> same_lock (ps ! i) (ps ! j) \<longrightarrow>
        lock_value (p_lock (ps ! i)) \<noteq> lock_value (p_lock (ps ! j)))"

definition all_returned :: "proc list \<Rightarrow> bool" where
  "all_returned ps = list_all (\<lambda>p. p_pc p \<noteq> Idle \<and> p_pc p \<noteq> Cleared) ps"

text \<open>
  What holds of the instances and the store during such a run: an instance marked held has
  returned true and its token is what the key holds.
\<close>

definition lock_inv :: "proc list \<Rightarrow> sim \<Rightarrow> bool" where
  "lock_inv ps w =
     (\<forall>i < length ps. acquired (p_lock (ps ! i)) \<longrightarrow>
        p_pc (ps ! i) = Returned True \<and>
        string_value (dbs w (space (p_lock (ps ! i)))) (lock_key (p_lock (ps ! i))) =
          Some (lock_value (p_lock (ps ! i))))"

text \<open>All instances are on the key \<open>k\<close> of the namespace \<open>sp\<close>, with a positive hold time.\<close>

definition all_on :: "RedisSpaceEnum \<Rightarrow> string \<Rightarrow> proc list \<Rightarrow> bool" where
  "all_on sp k ps =
     (\<forall>i < length ps. space (p_lock (ps ! i)) = sp \<and> lock_key (p_lock (ps ! i)) = k \<and>
        0 < timeout (p_lock (ps ! i)))"

text \<open>
  While no call fails and nobody else writes, on one key: an instance has returned true
  only if the key holds its token, an instance has returned false only if the key is taken, and a taken key
  holds the token of an instance that has returned true.
\<close>

definition race_inv :: "RedisSpaceEnum \<Rightarrow> string \<Rightarrow> proc list \<Rightarrow> sim \<Rightarrow> bool" where
  "race_inv sp k ps w =
     ((\<forall>i < length ps.
         (p_pc (ps ! i) = Returned True \<longrightarrow>
            string_value (dbs w sp) k = Some (lock_value (p_lock (ps ! i)))) \<and>
         (p_pc (ps ! i) = Returned False \<longrightarrow> dbs w sp k \<noteq> None)) \<and>
      (dbs w sp k \<noteq> None \<longrightarrow>
         (\<exists>i < length ps. p_pc (ps ! i) = Returned True \<and>
            string_value (dbs w sp) k = Some (lock_value (p_lock (ps ! i))))))"

definition proc_A :: proc where
  "proc_A = \<lparr>p_lock = lock_A, p_pc = Idle\<rparr>"

definition proc_B :: proc where
  "proc_B = \<lparr>p_lock = get_lock ''uuid-B'' ''job:42'' None 10 1 DEFAULT, p_pc = Idle\<rparr>"

definition procs_AB :: "proc list" where
  "procs_AB = [proc_A, proc_B]"




section \<open>Failing clients and example values\<close>

text \<open>The store call of an operation raises.\<close>

definition call_fails :: "'w conn \<Rightarrow> RedisSpaceEnum \<Rightarrow> command \<Rightarrow> 'w \<Rightarrow> bool" where
  "call_fails conn sp cmd w = (\<exists>e. fst (conn sp cmd w) = Inl e)"

text \<open>Every store call of the client raises.\<close>

definition raising :: "'w conn \<Rightarrow> bool" where
  "raising conn = (\<forall>sp cmd w. call_fails conn sp cmd w)"

text \<open>A client whose store is unreachable.\<close>

definition down_conn :: "unit conn" where
  "down_conn sp cmd w = (Inl (RedisError ''Connection refused''), w)"

text \<open>The library functions at the values of the examples: \<^verbatim>\<open>json.dumps\<close> and
  \<^verbatim>\<open>json.loads\<close> on a few lists, the empty dict and a number; on anything else they
  raise \<^verbatim>\<open>TypeError\<close> and \<^verbatim>\<open>JSONDecodeError\<close>.\<close>

definition json_examples :: "(pyval \<times> string) list" where
  "json_examples =
     [(PList [], ''[]''), (PList [PInt 1, PInt 2], ''[1, 2]''), (PDict [], ''{}''), (PInt 1, ''1'')]"

definition py_examples :: python where
  "py_examples =
     \<lparr>json_dumps = (\<lambda>v. case map_of json_examples v of
                           None \<Rightarrow> Inl (TypeError ''Object is not JSON serializable'')
                         | Some s \<Rightarrow> Inr s),
      json_loads = (\<lambda>s. case map_of (map (\<lambda>vs. (snd vs, fst vs)) json_examples) s of
                           None \<Rightarrow> Inl (JSONDecodeError ''Expecting value'')
                         | Some v \<Rightarrow> Inr v),
      str_other = (\<lambda>v. ''None'')\<rparr>"

text \<open>A world whose next store call fails.\<close>

definition down_world :: sim where
  "down_world = world0\<lparr>schedule := [\<lparr>raises = Some (RedisError ''Connection refused''), took = 0, others = []\<rparr>]\<rparr>"

section \<open>One call, seen from outside\<close>

text \<open>
  For the next store call of a world: the keyspaces as the command finds them (after what
  others did meanwhile), the exception the call raises if it does, the time it takes, and
  the world once the call is answered, before the command's own effect.
\<close>

definition arrival :: "sim \<Rightarrow> RedisSpaceEnum \<Rightarrow> redis_db" where
  "arrival w = (case schedule w of [] \<Rightarrow> dbs w | e # es \<Rightarrow> apply_others (others e) (dbs w))"

definition next_raises :: "sim \<Rightarrow> exn option" where
  "next_raises w = (case schedule w of [] \<Rightarrow> None | e # es \<Rightarrow> raises e)"

definition next_took :: "sim \<Rightarrow> nat" where
  "next_took w = (case schedule w of [] \<Rightarrow> 0 | e # es \<Rightarrow> took e)"

definition answered :: "sim \<Rightarrow> sim" where
  "answered w = w\<lparr>dbs := arrival w, clock := clock w + int (next_took w), schedule := tl (schedule w)\<rparr>"

text \<open>The time the next \<open>n\<close> calls take.\<close>

definition spent :: "nat \<Rightarrow> sim \<Rightarrow> int" where
  "spent n w = int (sum_list (map took (take n (schedule w))))"

text \<open>A lock with hold time 0, and an instance that is marked held and calls
  \<^verbatim>\<open>acquire\<close> again.\<close>

definition lock_Z :: RedisDistributedLock where
  "lock_Z = get_lock ''uuid-Z'' ''job:42'' (Some ''tokenZ'') 0 1 DEFAULT"

definition proc_A_held :: proc where
  "proc_A_held = \<lparr>p_lock = lock_A\<lparr>acquired := True\<rparr>, p_pc = Idle\<rparr>"


text \<open>A world in which the second store call to come fails.\<close>

definition set_fails_world :: sim where
  "set_fails_world = world0\<lparr>schedule :=
     [\<lparr>raises = None, took = 0, others = []\<rparr>,
      \<lparr>raises = Some (RedisError ''Connection refused''), took = 0, others = []\<rparr>]\<rparr>"

text \<open>No store call to come fails.\<close>

definition no_failure :: "sim \<Rightarrow> bool" where
  "no_failure w = list_all (\<lambda>e. raises e = None) (schedule w)"

text \<open>The key of an instance is taken: it holds something that is not this instance's token.\<close>

definition taken :: "sim \<Rightarrow> proc \<Rightarrow> bool" where
  "taken w p =
     (dbs w (space (p_lock p)) (lock_key (p_lock p)) \<noteq> None \<and>
      string_value (dbs w (space (p_lock p))) (lock_key (p_lock p)) \<noteq> Some (lock_value (p_lock p)))"

text \<open>The instance has not returned true and is not marked held.\<close>

definition lost :: "proc \<Rightarrow> bool" where
  "lost p = (p_pc p \<noteq> Returned True \<and> \<not> acquired (p_lock p))"

definition proc_Z :: proc where
  "proc_Z = \<lparr>p_lock = lock_Z, p_pc = Idle\<rparr>"

text \<open>A world in which a client that is none of the instances deletes the lock key before
  the third store call runs.\<close>

definition meddled_world :: sim where
  "meddled_world = world0\<lparr>schedule :=
     [\<lparr>raises = None, took = 0, others = []\<rparr>,
      \<lparr>raises = None, took = 0, others = []\<rparr>,
      \<lparr>raises = None, took = 0, others = [(DEFAULT, ExtDel ''job:42'')]\<rparr>]\<rparr>"

section \<open>The calls of a requeue\<close>




text \<open>The number of range reads among some calls: the attempts made.\<close>

definition attempts :: "string \<Rightarrow> pyval \<Rightarrow> (RedisSpaceEnum \<times> command \<times> (exn + pyval)) list \<Rightarrow> nat" where
  "attempts q mid calls = length (filter (\<lambda>c. fst (snd c) = XRANGE q mid mid) calls)"

text \<open>A queue with two entries; the first has been delivered to consumer \<open>c\<close> of group
  \<open>g\<close> and is pending. The same queue in a world whose third store call fails.\<close>

definition queue_world :: sim where
  "queue_world = world0\<lparr>dbs := (\<lambda>sp. Map.empty)(DEFAULT := [''q'' \<mapsto> VStream
     \<lparr>entries = [(1, [(''message'', ''1'')]), (2, [(''message'', ''[1, 2]'')])], last_id = 2,
      groups = [(''g'', \<lparr>last_delivered = 1, pel = [(1, ''c'')]\<rparr>)]\<rparr>])\<rparr>"


section \<open>The calls of a consume\<close>

text \<open>The commands \<^verbatim>\<open>queue_consumer\<close> sends: the lookup of the groups of the queue, the
  creation of the group from ID \<^verbatim>\<open>0\<close> with \<^verbatim>\<open>mkstream\<close>, and the read of one entry for
  the consumer with a block of 5000 ms, from any position.\<close>

fun consume_cmd :: "string \<Rightarrow> string \<Rightarrow> string \<Rightarrow> command \<Rightarrow> bool" where
  "consume_cmd q g c (XINFO_GROUPS q') = (q' = q)"
| "consume_cmd q g c (XGROUP_CREATE q' g' start mkstream) = (q' = q \<and> g' = g \<and> start = ''0'' \<and> mkstream)"
| "consume_cmd q g c (XREADGROUP g' c' count block q' pos) =
     (g' = g \<and> c' = c \<and> count = 1 \<and> block = 5000 \<and> q' = q)"
| "consume_cmd q g c cmd = False"

fun is_read :: "command \<Rightarrow> bool" where
  "is_read (XREADGROUP g c count block q pos) = True"
| "is_read cmd = False"

text \<open>The number of group lookups among some calls (the attempts made), and of reads.\<close>

definition lookups :: "string \<Rightarrow> (RedisSpaceEnum \<times> command \<times> (exn + pyval)) list \<Rightarrow> nat" where
  "lookups q calls = length (filter (\<lambda>c. fst (snd c) = XINFO_GROUPS q) calls)"

definition reads :: "(RedisSpaceEnum \<times> command \<times> (exn + pyval)) list \<Rightarrow> nat" where
  "reads calls = length (filter (\<lambda>c. is_read (fst (snd c))) calls)"

text \<open>\<^verbatim>\<open>stream, element_list = messages[0]; msg_id, payload = element_list[0]\<close>, when
  both have a value.\<close>

definition first_entry :: "pyval \<Rightarrow> (pyval \<times> pyval) option" where
  "first_entry messages =
     (case py_first messages of
        Inl e \<Rightarrow> None
      | Inr m0 \<Rightarrow>
          (case py_unpack2 m0 of
             Inl e \<Rightarrow> None
           | Inr (stream, element_list) \<Rightarrow>
               (case py_first element_list of
                  Inl e \<Rightarrow> None
                | Inr el \<Rightarrow> (case py_unpack2 el of Inl e \<Rightarrow> None | Inr p \<Rightarrow> Some p))))"

text \<open>The stream a key holds (the empty stream for a missing key), and a stream with a
  group added at the beginning when it has none of that name.\<close>

definition stream_at :: "redis_db \<Rightarrow> string \<Rightarrow> stream" where
  "stream_at db q = (case db q of Some (VStream s) \<Rightarrow> s | _ \<Rightarrow> empty_stream)"

definition with_group :: "string \<Rightarrow> stream \<Rightarrow> stream" where
  "with_group g s =
     (if map_of (groups s) g = None
      then s\<lparr>groups := groups s @ [(g, \<lparr>last_delivered = 0, pel = []\<rparr>)]\<rparr> else s)"

definition group_of :: "string \<Rightarrow> stream \<Rightarrow> stream_group" where
  "group_of g s = (case map_of (groups s) g of None \<Rightarrow> \<lparr>last_delivered = 0, pel = []\<rparr> | Some gr \<Rightarrow> gr)"

text \<open>The entries of a stream not yet delivered to a group.\<close>

definition undelivered :: "string \<Rightarrow> stream \<Rightarrow> (nat \<times> (string \<times> string) list) list" where
  "undelivered g s = filter (\<lambda>en. last_delivered (group_of g s) < fst en) (entries s)"

text \<open>A stream after its entry \<open>i\<close> has been delivered to consumer \<open>c\<close> of group \<open>g\<close>.\<close>

definition delivered :: "string \<Rightarrow> string \<Rightarrow> nat \<Rightarrow> stream \<Rightarrow> stream" where
  "delivered g c i s =
     s\<lparr>groups := upd_group g ((group_of g s)\<lparr>last_delivered := i, pel := pel (group_of g s) @ [(i, c)]\<rparr>)
                   (groups s)\<rparr>"

text \<open>Pending entries have been delivered: their IDs are not after the last delivered one.\<close>

definition pel_within :: "stream_group \<Rightarrow> bool" where
  "pel_within gr = list_all (\<lambda>pe. fst pe \<le> last_delivered gr) (pel gr)"

text \<open>\<^verbatim>\<open>not messages\<close>, or \<^verbatim>\<open>not element_list\<close> for
  \<^verbatim>\<open>stream, element_list = messages[0]\<close>: the read delivered nothing.\<close>

definition read_empty :: "pyval \<Rightarrow> bool" where
  "read_empty messages =
     (\<not> py_bool messages \<or>
      (case py_first messages of
         Inl e \<Rightarrow> False
       | Inr m0 \<Rightarrow> (case py_unpack2 m0 of
                      Inl e \<Rightarrow> False
                    | Inr (stream, element_list) \<Rightarrow> \<not> py_bool element_list)))"

text \<open>A queue whose only entry has no \<^verbatim>\<open>message\<close> field, one whose only entry holds a
  text that is not JSON, and a queue with a group to which a consumer has two pending
  entries, the first without a \<^verbatim>\<open>message\<close> field.\<close>

definition no_message_world :: sim where
  "no_message_world = world0\<lparr>dbs := (\<lambda>sp. Map.empty)(DEFAULT := [''q'' \<mapsto> VStream
     \<lparr>entries = [(1, [(''body'', ''1'')])], last_id = 1, groups = []\<rparr>])\<rparr>"

definition not_json_world :: sim where
  "not_json_world = world0\<lparr>dbs := (\<lambda>sp. Map.empty)(DEFAULT := [''q'' \<mapsto> VStream
     \<lparr>entries = [(1, [(''message'', ''not json'')])], last_id = 1, groups = []\<rparr>])\<rparr>"

definition pending_world :: sim where
  "pending_world = world0\<lparr>dbs := (\<lambda>sp. Map.empty)(DEFAULT := [''q'' \<mapsto> VStream
     \<lparr>entries = [(1, [(''body'', ''1'')]), (2, [(''message'', ''[1, 2]'')])], last_id = 2,
      groups = [(''g'', \<lparr>last_delivered = 2, pel = [(1, ''c''), (2, ''c'')]\<rparr>)]\<rparr>])\<rparr>"

text \<open>A world in which the third store call fails: the read of the first attempt of a
  consume on a queue that has no group yet.\<close>

definition read_fails_world :: sim where
  "read_fails_world = queue_world\<lparr>schedule :=
     [\<lparr>raises = None, took = 0, others = []\<rparr>,
      \<lparr>raises = Some (RedisError ''Connection reset''), took = 0, others = []\<rparr>]\<rparr>"

section \<open>Properties\<close>

subsection \<open>Calls on the simulated connection\<close>

lemma sim_conn_quiet: "schedule w = [] \<Longrightarrow> sim_conn sp cmd w = run_on sp cmd w"
  by (simp add: sim_conn_def)

lemma run_on_schedule [simp]: "schedule (snd (run_on sp cmd w)) = schedule w"
  by (simp add: run_on_def split: prod.splits)

lemma run_on_clock [simp]: "clock (snd (run_on sp cmd w)) = clock w"
  by (simp add: run_on_def split: prod.splits)

lemma run_on_eq:
  "run_on sp cmd w =
     (fst (redis_exec cmd (dbs w sp)),
      w\<lparr>dbs := (dbs w)(sp := snd (redis_exec cmd (dbs w sp))),
        trace := trace w @ [(sp, cmd, fst (redis_exec cmd (dbs w sp)))]\<rparr>)"
  by (simp add: run_on_def split: prod.splits)

lemma sim_conn_alone:
  assumes "schedule w = e # es" "others e = []"
  shows "sim_conn sp cmd w =
     (case raises e of
        Some x \<Rightarrow> (Inl x, w\<lparr>clock := clock w + int (took e), schedule := es,
                            trace := trace w @ [(sp, cmd, Inl x)]\<rparr>)
      | None \<Rightarrow> run_on sp cmd (w\<lparr>clock := clock w + int (took e), schedule := es\<rparr>))"
  using assms by (simp add: sim_conn_def Let_def split: option.splits)

lemma commands_since_append [simp]:
  "commands_since w (w'\<lparr>trace := trace w @ xs\<rparr>) = map (\<lambda>c. (fst c, fst (snd c))) xs"
  by (simp add: commands_since_def calls_since_def)

lemma commands_since_self [simp]: "commands_since w w = []"
  by (simp add: commands_since_def calls_since_def)

subsection \<open>Compare-and-delete\<close>

lemma run_script_die:
  "run_script Lua_delete_if_equal [key] [v] db =
     (case db key of
        None \<Rightarrow> (Inr (PInt 0), db)
      | Some (VString s t) \<Rightarrow> if s = v then (Inr (PInt 1), db(key := None)) else (Inr (PInt 0), db)
      | Some other \<Rightarrow> (Inl wrongtype, db))"
  by (auto simp: lua_get_def split: option.splits rvalue.splits)

lemma die_run_on:
  "(case run_on sp (EVALSCRIPT (get_lua_script sp ''delete_if_equal'') [key] [v]) w of
        (Inl e, w') \<Rightarrow> (Inr False, w')
      | (Inr result, w') \<Rightarrow> (Inr (py_bool result), w')) =
           (Inr (fst (compare_and_delete_spec (dbs w sp) key v)),
            w\<lparr>dbs := (dbs w)(sp := snd (compare_and_delete_spec (dbs w sp) key v)),
              trace := trace w @ [(sp, EVALSCRIPT Lua_delete_if_equal [key] [v],
                 fst (run_script Lua_delete_if_equal [key] [v] (dbs w sp)))]\<rparr>)"
  by (auto simp del: run_script.simps simp add: run_on_def get_lua_script_def get_script_content_def
      run_script_die compare_and_delete_spec_def string_value_def
      split: option.splits rvalue.splits)

lemma die_quiet:
  assumes "schedule w = []"
  shows "delete_if_equal sim_conn key v sp w =
           (Inr (fst (compare_and_delete_spec (dbs w sp) key v)),
            w\<lparr>dbs := (dbs w)(sp := snd (compare_and_delete_spec (dbs w sp) key v)),
              trace := trace w @ [(sp, EVALSCRIPT Lua_delete_if_equal [key] [v],
                 fst (run_script Lua_delete_if_equal [key] [v] (dbs w sp)))]\<rparr>)"
  unfolding delete_if_equal_def sim_conn_quiet[OF assms] by (rule die_run_on)

lemma delete_if_equal_returns: "\<exists>b. fst (delete_if_equal conn key v sp w) = Inr b"
  by (auto simp: delete_if_equal_def split: prod.splits sum.splits)

lemma spec_other_keys: "k \<noteq> key \<Longrightarrow> snd (compare_and_delete_spec db key v) k = db k"
  by (simp add: compare_and_delete_spec_def)

lemma die_alone_mismatch:
  assumes "alone w" "string_value (dbs w sp) key \<noteq> Some v"
  shows "fst (delete_if_equal sim_conn key v sp w) = Inr False \<and>
         dbs (snd (delete_if_equal sim_conn key v sp w)) = dbs w"
proof (cases "schedule w")
  case Nil
  then show ?thesis using assms(2) by (simp add: die_quiet compare_and_delete_spec_def)
next
  case (Cons e es)
  with assms(1) have o: "others e = []" by (simp add: alone_def)
  show ?thesis
  proof (cases "raises e")
    case None
    then show ?thesis using assms(2)
      unfolding delete_if_equal_def sim_conn_alone[OF Cons o]
      by (simp add: die_run_on compare_and_delete_spec_def)
  next
    case (Some x)
    then show ?thesis
      unfolding delete_if_equal_def sim_conn_alone[OF Cons o] by simp
  qed
qed

text \<open>
  C2. In a quiet environment \<^verbatim>\<open>delete_if_equal\<close> is the design's compare-and-delete, done
  by one call that runs the script: it returns true and deletes the key when the key holds
  the expected value, and returns false and changes nothing otherwise; no other key
  changes. Whenever nobody else writes, also when the call fails or is slow: on a key that
  does not hold the expected value it returns false and leaves every keyspace as it was.
\<close>

theorem delete_if_equal_compare_and_delete:
  "(schedule w = [] \<longrightarrow>
      fst (delete_if_equal sim_conn key v sp w) = Inr (fst (compare_and_delete_spec (dbs w sp) key v)) \<and>
      dbs (snd (delete_if_equal sim_conn key v sp w)) =
        (dbs w)(sp := snd (compare_and_delete_spec (dbs w sp) key v)) \<and>
      commands_since w (snd (delete_if_equal sim_conn key v sp w)) =
        [(sp, EVALSCRIPT Lua_delete_if_equal [key] [v])])
   \<and> (\<forall>k. k \<noteq> key \<longrightarrow> snd (compare_and_delete_spec (dbs w sp) key v) k = dbs w sp k)
   \<and> (alone w \<and> string_value (dbs w sp) key \<noteq> Some v \<longrightarrow>
        fst (delete_if_equal sim_conn key v sp w) = Inr False \<and>
        dbs (snd (delete_if_equal sim_conn key v sp w)) = dbs w)"
proof (intro conjI impI allI)
  assume q: "schedule w = []"
  show "fst (delete_if_equal sim_conn key v sp w) = Inr (fst (compare_and_delete_spec (dbs w sp) key v))"
    by (simp add: die_quiet[OF q])
  show "dbs (snd (delete_if_equal sim_conn key v sp w)) =
        (dbs w)(sp := snd (compare_and_delete_spec (dbs w sp) key v))"
    by (simp add: die_quiet[OF q])
  show "commands_since w (snd (delete_if_equal sim_conn key v sp w)) =
        [(sp, EVALSCRIPT Lua_delete_if_equal [key] [v])]"
    by (simp add: die_quiet[OF q])
next
  fix k assume "k \<noteq> key"
  then show "snd (compare_and_delete_spec (dbs w sp) key v) k = dbs w sp k"
    by (rule spec_other_keys)
next
  assume a: "alone w \<and> string_value (dbs w sp) key \<noteq> Some v"
  then show "fst (delete_if_equal sim_conn key v sp w) = Inr False"
    using die_alone_mismatch by blast
  from a show "dbs (snd (delete_if_equal sim_conn key v sp w)) = dbs w"
    using die_alone_mismatch by blast
qed

theorem delete_if_equal_tokenB_witness:
  "schedule (held_by ''tokenB'') = [] \<and> alone (held_by ''tokenB'') \<and>
   string_value (dbs (held_by ''tokenB'') DEFAULT) ''job:42'' \<noteq> Some ''tokenA'' \<and>
   ''other'' \<noteq> ''job:42'' \<and>
   fst (delete_if_equal sim_conn ''job:42'' ''tokenA'' DEFAULT (held_by ''tokenB'')) = Inr False \<and>
   dbs (snd (delete_if_equal sim_conn ''job:42'' ''tokenA'' DEFAULT (held_by ''tokenB''))) =
     dbs (held_by ''tokenB'') \<and>
   string_value (dbs (snd (delete_if_equal sim_conn ''job:42'' ''tokenA'' DEFAULT (held_by ''tokenB''))) DEFAULT)
     ''job:42'' = Some ''tokenB''"
  using delete_if_equal_compare_and_delete [of "held_by ''tokenB''" "''job:42''" "''tokenA''" DEFAULT]
  by (simp add: held_by_def world0_def alone_def string_value_def compare_and_delete_spec_def)

subsection \<open>The lock\<close>

lemma set_nx_ex_run_on:
  "0 < ex \<Longrightarrow> run_on sp (SET_NX_EX k v ex) w =
     (if dbs w sp k = None
      then (Inr (PBool True), w\<lparr>dbs := (dbs w)(sp := (dbs w sp)(k \<mapsto> VString v (Some ex))),
                                trace := trace w @ [(sp, SET_NX_EX k v ex, Inr (PBool True))]\<rparr>)
      else (Inr PNone, w\<lparr>trace := trace w @ [(sp, SET_NX_EX k v ex, Inr PNone)]\<rparr>))"
  by (simp add: run_on_def set_nx_ex_def)

lemma acquire_returns: "\<exists>b. fst (acquire conn L w) = Inr b"
  by (auto simp: acquire_def split: prod.splits sum.splits)

lemma release_returns: "\<exists>b. fst (release conn L w) = Inr b"
  by (auto simp: release_def split: prod.splits sum.splits)

lemma release_not_held: "\<not> acquired L \<Longrightarrow> release conn L w = (Inr True, L, w)"
  by (simp add: release_def)

lemma release_marks_released: "\<not> acquired (fst (snd (release conn L w)))"
  using delete_if_equal_returns[of conn "lock_key L" "lock_value L" "space L" w]
  by (auto simp: release_def split: prod.splits sum.splits)


lemma release_held_quiet:
  assumes "acquired L" "schedule w = []"
  shows "release sim_conn L w =
     (Inr (string_value (dbs w (space L)) (lock_key L) = Some (lock_value L)),
      L\<lparr>acquired := False\<rparr>,
      snd (delete_if_equal sim_conn (lock_key L) (lock_value L) (space L) w))"
  using assms by (simp add: release_def die_quiet compare_and_delete_spec_def)

lemma release_alone_mismatch:
  assumes "alone s" "string_value (dbs s (space L)) (lock_key L) \<noteq> Some (lock_value L)"
  shows "dbs (snd (snd (release sim_conn L s))) = dbs s"
proof (cases "acquired L")
  case False
  then show ?thesis by (simp add: release_not_held)
next
  case True
  obtain b where b: "fst (delete_if_equal sim_conn (lock_key L) (lock_value L) (space L) s) = Inr b"
    using delete_if_equal_returns[of sim_conn "lock_key L" "lock_value L" "space L" s] by auto
  have "snd (snd (release sim_conn L s)) =
        snd (delete_if_equal sim_conn (lock_key L) (lock_value L) (space L) s)"
    using True b by (simp add: release_def split: prod.splits sum.splits)
  then show ?thesis using die_alone_mismatch[OF assms] by simp
qed

lemma acquire_quiet:
  assumes "schedule s = []" "0 < timeout L"
  shows "acquire sim_conn L s =
     (let sp = space L; k = lock_key L; v = lock_value L;
          db1 = snd (compare_and_delete_spec (dbs s sp) k v);
          free = (db1 k = None)
      in (Inr free, L\<lparr>acquired := free\<rparr>,
          s\<lparr>dbs := (dbs s)(sp := if free then db1(k \<mapsto> VString v (Some (timeout L))) else db1),
            trace := trace s @
              [(sp, EVALSCRIPT Lua_delete_if_equal [k] [v],
                  fst (run_script Lua_delete_if_equal [k] [v] (dbs s sp))),
               (sp, SET_NX_EX k v (timeout L), Inr (if free then PBool True else PNone))]\<rparr>))"
  using assms
  by (simp add: acquire_def die_quiet sim_conn_quiet set_nx_ex_run_on Let_def)

subsection \<open>Concurrent acquisitions\<close>

lemma alone_Nil: "schedule w = [] \<Longrightarrow> alone w"
  by (simp add: alone_def)

lemma run_on_alone [simp]: "alone (snd (run_on sp cmd w)) = alone w"
  by (simp add: alone_def)

lemma sim_conn_alone_cases:
  assumes "alone w"
  shows "(\<exists>w0. dbs w0 = dbs w \<and> alone w0 \<and> sim_conn sp cmd w = run_on sp cmd w0) \<or>
         (\<exists>x w1. dbs w1 = dbs w \<and> alone w1 \<and> sim_conn sp cmd w = (Inl x, w1))"
proof (cases "schedule w")
  case Nil
  then have "dbs w = dbs w \<and> alone w \<and> sim_conn sp cmd w = run_on sp cmd w"
    using assms by (simp add: sim_conn_quiet)
  then show ?thesis by blast
next
  case (Cons e es)
  with assms have o: "others e = []" and es: "list_all (\<lambda>e. others e = []) es"
    by (simp_all add: alone_def)
  let ?w0 = "w\<lparr>clock := clock w + int (took e), schedule := es\<rparr>"
  show ?thesis
  proof (cases "raises e")
    case None
    have "dbs ?w0 = dbs w \<and> alone ?w0 \<and> sim_conn sp cmd w = run_on sp cmd ?w0"
      by (simp add: sim_conn_alone[OF Cons o] None alone_def es)
    then show ?thesis by blast
  next
    case (Some x)
    let ?w1 = "w\<lparr>clock := clock w + int (took e), schedule := es,
                   trace := trace w @ [(sp, cmd, Inl x)]\<rparr>"
    have "dbs ?w1 = dbs w \<and> alone ?w1 \<and> sim_conn sp cmd w = (Inl x, ?w1)"
      by (simp add: sim_conn_alone[OF Cons o] Some alone_def es)
    then show ?thesis by blast
  qed
qed

lemma die_alone_effect:
  assumes "alone w"
  shows "alone (snd (delete_if_equal sim_conn key v sp w)) \<and>
         (dbs (snd (delete_if_equal sim_conn key v sp w)) = dbs w \<or>
          string_value (dbs w sp) key = Some v \<and>
          dbs (snd (delete_if_equal sim_conn key v sp w)) = (dbs w)(sp := (dbs w sp)(key := None)))"
  using sim_conn_alone_cases[OF assms, of sp "EVALSCRIPT (get_lua_script sp ''delete_if_equal'') [key] [v]"]
proof (elim disjE exE conjE)
  fix w0
  assume run: "dbs w0 = dbs w" "alone w0"
    "sim_conn sp (EVALSCRIPT (get_lua_script sp ''delete_if_equal'') [key] [v]) w =
       run_on sp (EVALSCRIPT (get_lua_script sp ''delete_if_equal'') [key] [v]) w0"
  have "delete_if_equal sim_conn key v sp w =
          (Inr (fst (compare_and_delete_spec (dbs w0 sp) key v)),
            w0\<lparr>dbs := (dbs w0)(sp := snd (compare_and_delete_spec (dbs w0 sp) key v)),
              trace := trace w0 @ [(sp, EVALSCRIPT Lua_delete_if_equal [key] [v],
                 fst (run_script Lua_delete_if_equal [key] [v] (dbs w0 sp)))]\<rparr>)"
    unfolding delete_if_equal_def run(3) by (rule die_run_on)
  then show ?thesis using run(1,2)
    by (auto simp: compare_and_delete_spec_def alone_def)
next
  fix x w1
  assume "dbs w1 = dbs w" "alone w1"
    "sim_conn sp (EVALSCRIPT (get_lua_script sp ''delete_if_equal'') [key] [v]) w = (Inl x, w1)"
  then show ?thesis by (simp add: delete_if_equal_def)
qed

lemma set_alone_effect:
  assumes "alone w"
  shows "case sim_conn sp (SET_NX_EX k v ex) w of
           (r, w') \<Rightarrow> alone w' \<and>
             (if (case r of Inl e \<Rightarrow> False | Inr x \<Rightarrow> py_bool x)
              then dbs w sp k = None \<and> dbs w' = (dbs w)(sp := (dbs w sp)(k \<mapsto> VString v (Some ex)))
              else dbs w' = dbs w)"
  using sim_conn_alone_cases[OF assms, of sp "SET_NX_EX k v ex"]
proof (elim disjE exE conjE)
  fix w0
  assume run: "dbs w0 = dbs w" "alone w0"
    "sim_conn sp (SET_NX_EX k v ex) w = run_on sp (SET_NX_EX k v ex) w0"
  show ?thesis
    unfolding run(3) using run(1,2)
    by (simp add: run_on_eq set_nx_ex_def alone_def)
next
  fix x w1
  assume "dbs w1 = dbs w" "alone w1" "sim_conn sp (SET_NX_EX k v ex) w = (Inl x, w1)"
  then show ?thesis by simp
qed

lemma proc_step_lock_fields:
  assumes "proc_step conn p w = (p', w')"
  shows "space (p_lock p') = space (p_lock p) \<and> lock_key (p_lock p') = lock_key (p_lock p) \<and>
         lock_value (p_lock p') = lock_value (p_lock p) \<and> timeout (p_lock p') = timeout (p_lock p)"
  using assms by (auto simp: proc_step_def split: pc.splits prod.splits sum.splits)

lemma own_tokens_update:
  assumes "own_tokens ps" "i < length ps"
    "space (p_lock p') = space (p_lock (ps ! i))" "lock_key (p_lock p') = lock_key (p_lock (ps ! i))"
    "lock_value (p_lock p') = lock_value (p_lock (ps ! i))"
  shows "own_tokens (ps[i := p'])"
  using assms unfolding own_tokens_def same_lock_def
  by (simp add: nth_list_update)

lemma proc_step_idle:
  assumes "p_pc p = Idle"
  shows "proc_step conn p w =
           (p\<lparr>p_pc := (case fst (delete_if_equal conn (lock_key (p_lock p)) (lock_value (p_lock p)) (space (p_lock p)) w) of
                          Inl e \<Rightarrow> Returned False | Inr c \<Rightarrow> Cleared)\<rparr>,
            snd (delete_if_equal conn (lock_key (p_lock p)) (lock_value (p_lock p)) (space (p_lock p)) w))"
  using assms by (simp add: proc_step_def split: prod.splits sum.splits)

lemma proc_step_returned:
  "p_pc p = Returned b \<Longrightarrow> proc_step conn p w = (p, w)"
  by (simp add: proc_step_def)

lemma proc_step_inv:
  assumes inv: "lock_inv ps w" and own: "own_tokens ps" and al: "alone w"
    and i: "i < length ps" and st: "proc_step sim_conn (ps ! i) w = (p', w')"
  shows "lock_inv (ps[i := p']) w' \<and> own_tokens (ps[i := p']) \<and> alone w'"
proof -
  let ?p = "ps ! i"
  let ?sp = "space (p_lock ?p)" and ?k = "lock_key (p_lock ?p)" and ?v = "lock_value (p_lock ?p)"
  note flds = proc_step_lock_fields[OF st]
  have own': "own_tokens (ps[i := p'])"
    using own_tokens_update[OF own i] flds by simp
  have held: "\<And>j. j < length ps \<Longrightarrow> acquired (p_lock (ps ! j)) \<Longrightarrow>
     p_pc (ps ! j) = Returned True \<and>
     string_value (dbs w (space (p_lock (ps ! j)))) (lock_key (p_lock (ps ! j))) = Some (lock_value (p_lock (ps ! j)))"
    using inv by (simp add: lock_inv_def)
  have clash: "\<And>j. j < length ps \<Longrightarrow> j \<noteq> i \<Longrightarrow>
     space (p_lock (ps ! j)) = ?sp \<Longrightarrow> lock_key (p_lock (ps ! j)) = ?k \<Longrightarrow>
     lock_value (p_lock (ps ! j)) \<noteq> ?v"
    using own i unfolding own_tokens_def same_lock_def by blast
  show ?thesis
  proof (cases "p_pc ?p")
    case Idle
    have nacq: "\<not> acquired (p_lock ?p)" using held[OF i] Idle by auto
    from st have p': "p_lock p' = p_lock ?p" and w': "w' = snd (delete_if_equal sim_conn ?k ?v ?sp w)"
      by (auto simp: proc_step_idle[OF Idle])
    from die_alone_effect[OF al, of ?k ?v ?sp] w'
    have al': "alone w'" and eff: "dbs w' = dbs w \<or>
          string_value (dbs w ?sp) ?k = Some ?v \<and> dbs w' = (dbs w)(?sp := (dbs w ?sp)(?k := None))"
      by simp_all
    have "lock_inv (ps[i := p']) w'"
      unfolding lock_inv_def
    proof (intro allI impI)
      fix j assume j: "j < length (ps[i := p'])" and a: "acquired (p_lock (ps[i := p'] ! j))"
      have ji: "j \<noteq> i" using a nacq p' i by (auto simp: nth_list_update)
      then have eq: "ps[i := p'] ! j = ps ! j" by simp
      have jl: "j < length ps" using j by simp
      have hj: "p_pc (ps ! j) = Returned True \<and>
         string_value (dbs w (space (p_lock (ps ! j)))) (lock_key (p_lock (ps ! j))) = Some (lock_value (p_lock (ps ! j)))"
        using held[OF jl] a eq by simp
      from eff have "string_value (dbs w' (space (p_lock (ps ! j)))) (lock_key (p_lock (ps ! j))) =
                     string_value (dbs w (space (p_lock (ps ! j)))) (lock_key (p_lock (ps ! j)))"
      proof
        assume "dbs w' = dbs w" then show ?thesis by simp
      next
        assume d: "string_value (dbs w ?sp) ?k = Some ?v \<and> dbs w' = (dbs w)(?sp := (dbs w ?sp)(?k := None))"
        have "(space (p_lock (ps ! j)), lock_key (p_lock (ps ! j))) \<noteq> (?sp, ?k)"
          using clash[OF jl ji] hj d by auto
        then show ?thesis using d by (auto simp: string_value_def)
      qed
      then show "p_pc (ps[i := p'] ! j) = Returned True \<and>
         string_value (dbs w' (space (p_lock (ps[i := p'] ! j)))) (lock_key (p_lock (ps[i := p'] ! j))) =
           Some (lock_value (p_lock (ps[i := p'] ! j)))"
        using hj eq by simp
    qed
    then show ?thesis using own' al' by simp
  next
    case Cleared
    have nacq: "\<not> acquired (p_lock ?p)" using held[OF i] Cleared by auto
    obtain r where r: "sim_conn ?sp (SET_NX_EX ?k ?v (timeout (p_lock ?p))) w = (r, w')"
      using st Cleared by (auto simp: proc_step_def split: prod.splits sum.splits)
    let ?ok = "case r of Inl e \<Rightarrow> False | Inr x \<Rightarrow> py_bool x"
    from set_alone_effect[OF al, of ?sp ?k ?v "timeout (p_lock ?p)"] r
    have al': "alone w'" and eff: "if ?ok
              then dbs w ?sp ?k = None \<and> dbs w' = (dbs w)(?sp := (dbs w ?sp)(?k \<mapsto> VString ?v (Some (timeout (p_lock ?p)))))
              else dbs w' = dbs w"
      by simp_all
    have p': "acquired (p_lock p') = ?ok" "p_pc p' = Returned ?ok"
      using st Cleared r nacq by (auto simp: proc_step_def split: prod.splits sum.splits)
    have "lock_inv (ps[i := p']) w'"
      unfolding lock_inv_def
    proof (intro allI impI)
      fix j assume j: "j < length (ps[i := p'])" and a: "acquired (p_lock (ps[i := p'] ! j))"
      have jl: "j < length ps" using j by simp
      show "p_pc (ps[i := p'] ! j) = Returned True \<and>
         string_value (dbs w' (space (p_lock (ps[i := p'] ! j)))) (lock_key (p_lock (ps[i := p'] ! j))) =
           Some (lock_value (p_lock (ps[i := p'] ! j)))"
      proof (cases "j = i")
        case True
        then have ok: ?ok using a p' i by simp
        then show ?thesis using True i p' eff flds by (simp add: string_value_def)
      next
        case False
        then have eq: "ps[i := p'] ! j = ps ! j" by simp
        have hj: "p_pc (ps ! j) = Returned True \<and>
           string_value (dbs w (space (p_lock (ps ! j)))) (lock_key (p_lock (ps ! j))) = Some (lock_value (p_lock (ps ! j)))"
          using held[OF jl] a eq by simp
        have "string_value (dbs w' (space (p_lock (ps ! j)))) (lock_key (p_lock (ps ! j))) =
              string_value (dbs w (space (p_lock (ps ! j)))) (lock_key (p_lock (ps ! j)))"
        proof (cases ?ok)
          case True
          with eff have none: "dbs w ?sp ?k = None"
            and d: "dbs w' = (dbs w)(?sp := (dbs w ?sp)(?k \<mapsto> VString ?v (Some (timeout (p_lock ?p)))))"
            by simp_all
          have "(space (p_lock (ps ! j)), lock_key (p_lock (ps ! j))) \<noteq> (?sp, ?k)"
            using hj none by (auto simp: string_value_def)
          then show ?thesis using d by (auto simp: string_value_def)
        next
          case False
          with eff show ?thesis by simp
        qed
        then show ?thesis using hj eq by simp
      qed
    qed
    then show ?thesis using own' al' by simp
  next
    case (Returned b)
    then have "p' = ?p" "w' = w" using st by (simp_all add: proc_step_returned)
    then show ?thesis using inv own al by simp
  qed
qed

lemma run_acquires_inv:
  assumes "lock_inv ps w" "own_tokens ps" "alone w"
  shows "lock_inv (fst (run_acquires sim_conn order (ps, w))) (snd (run_acquires sim_conn order (ps, w)))
       \<and> own_tokens (fst (run_acquires sim_conn order (ps, w)))"
  using assms
proof (induction order arbitrary: ps w)
  case Nil
  then show ?case by simp
next
  case (Cons i order)
  show ?case
  proof (cases "i < length ps")
    case True
    obtain p' w' where st: "proc_step sim_conn (ps ! i) w = (p', w')" by force
    from proc_step_inv[OF Cons.prems True st]
    show ?thesis using Cons.IH[of "ps[i := p']" w'] True st by simp
  next
    case False
    then show ?thesis using Cons.IH[OF Cons.prems] by simp
  qed
qed

lemma fresh_lock_inv: "list_all fresh ps \<Longrightarrow> lock_inv ps w"
  by (simp add: lock_inv_def fresh_def list_all_length)

lemma string_value_SomeD: "string_value db k = Some v \<Longrightarrow> db k \<noteq> None"
  by (auto simp: string_value_def split: option.splits)

lemma string_value_None [simp]: "db k = None \<Longrightarrow> string_value db k = None"
  by (simp add: string_value_def)

lemma string_value_VString [simp]: "db k = Some (VString v t) \<Longrightarrow> string_value db k = Some v"
  by (simp add: string_value_def)

lemma all_on_update:
  assumes "all_on sp k ps" "i < length ps"
    "space (p_lock p') = space (p_lock (ps ! i))" "lock_key (p_lock p') = lock_key (p_lock (ps ! i))"
    "timeout (p_lock p') = timeout (p_lock (ps ! i))"
  shows "all_on sp k (ps[i := p'])"
  using assms unfolding all_on_def by (simp add: nth_list_update)

lemma run_acquires_length [simp]: "length (fst (run_acquires conn order c)) = length (fst c)"
  by (induction order arbitrary: c) (auto split: prod.splits)

lemma fresh_race_inv: "list_all fresh ps \<Longrightarrow> dbs w sp k = None \<Longrightarrow> race_inv sp k ps w"
  by (simp add: race_inv_def fresh_def list_all_length)

lemma race_inv_exactly_one:
  assumes inv: "race_inv sp k ps w" and own: "own_tokens ps" and on: "all_on sp k ps"
    and ne: "ps \<noteq> []" and fin: "all_returned ps"
  shows "\<exists>!i. i < length ps \<and> p_pc (ps ! i) = Returned True"
proof -
  have z: "0 < length ps" using ne by simp
  then obtain b where b: "p_pc (ps ! 0) = Returned b"
    using fin by (cases "p_pc (ps ! 0)") (auto simp: all_returned_def list_all_length)
  have r1: "\<And>j. j < length ps \<Longrightarrow> p_pc (ps ! j) = Returned True \<Longrightarrow>
              string_value (dbs w sp) k = Some (lock_value (p_lock (ps ! j)))"
    and r2: "\<And>j. j < length ps \<Longrightarrow> p_pc (ps ! j) = Returned False \<Longrightarrow> dbs w sp k \<noteq> None"
    and r3: "dbs w sp k \<noteq> None \<Longrightarrow> \<exists>j < length ps. p_pc (ps ! j) = Returned True \<and>
            string_value (dbs w sp) k = Some (lock_value (p_lock (ps ! j)))"
    using inv by (simp_all add: race_inv_def)
  have taken: "dbs w sp k \<noteq> None"
  proof (cases b)
    case True
    with b have "p_pc (ps ! 0) = Returned True" by simp
    from string_value_SomeD[OF r1[OF z this]] show ?thesis .
  next
    case False
    then show ?thesis using r2[OF z] b by simp
  qed
  from r3[OF this] obtain i where i: "i < length ps" "p_pc (ps ! i) = Returned True"
    by blast
  show ?thesis
  proof (rule ex1I[of _ i])
    show "i < length ps \<and> p_pc (ps ! i) = Returned True" using i by simp
  next
    fix j assume j: "j < length ps \<and> p_pc (ps ! j) = Returned True"
    have eq: "lock_value (p_lock (ps ! j)) = lock_value (p_lock (ps ! i))"
      using r1[of i] r1[of j] i j by simp
    have "same_lock (ps ! j) (ps ! i)" using on i j by (simp add: same_lock_def all_on_def)
    then show "j = i"
      using own i j eq unfolding own_tokens_def by blast
  qed
qed

text \<open>The two steps of an instance are its call of \<^verbatim>\<open>acquire\<close>.\<close>

lemma acquire_as_steps:
  assumes "p_pc p = Idle" "proc_step conn p w = (p1, w1)" "proc_step conn p1 w1 = (p2, w2)"
  shows "\<exists>b. p_pc p2 = Returned b \<and> acquire conn (p_lock p) w = (Inr b, p_lock p2, w2)"
  using assms
  by (auto simp: proc_step_def acquire_def split: prod.splits sum.splits pc.splits)

lemma held_indices_unique:
  assumes "lock_inv ps w" "own_tokens ps"
    "i < length ps" "j < length ps" "acquired (p_lock (ps ! i))" "acquired (p_lock (ps ! j))"
    "same_lock (ps ! i) (ps ! j)"
  shows "i = j"
proof (rule ccontr)
  assume "i \<noteq> j"
  then have "lock_value (p_lock (ps ! i)) \<noteq> lock_value (p_lock (ps ! j))"
    using assms by (simp add: own_tokens_def)
  moreover have "string_value (dbs w (space (p_lock (ps ! i)))) (lock_key (p_lock (ps ! i))) =
                   Some (lock_value (p_lock (ps ! i)))"
    and "string_value (dbs w (space (p_lock (ps ! j)))) (lock_key (p_lock (ps ! j))) =
                   Some (lock_value (p_lock (ps ! j)))"
    using assms by (simp_all add: lock_inv_def)
  then have "lock_value (p_lock (ps ! i)) = lock_value (p_lock (ps ! j))"
    using assms(7) by (simp add: same_lock_def)
  ultimately show False by simp
qed

subsection \<open>Spinning\<close>


lemma sim_conn_clock:
  assumes "calls_within d w"
  shows "clock w \<le> clock (snd (sim_conn sp cmd w)) \<and> clock (snd (sim_conn sp cmd w)) \<le> clock w + int d \<and>
         calls_within d (snd (sim_conn sp cmd w))"
  using assms
  by (cases "schedule w") (auto simp: sim_conn_def run_on_eq Let_def calls_within_def split: option.splits)

lemma sim_conn_set_reply:
  "fst (sim_conn sp (SET_NX_EX k v t) w) = Inr x \<Longrightarrow> x = PBool True \<or> x = PNone"
  by (cases "schedule w")
     (auto simp: sim_conn_def run_on_eq Let_def set_nx_ex_def split: option.splits if_splits)


lemma die_sim_world:
  "snd (delete_if_equal sim_conn k v sp w) =
   snd (sim_conn sp (EVALSCRIPT (get_lua_script sp ''delete_if_equal'') [k] [v]) w)"
  by (simp add: delete_if_equal_def split: prod.splits sum.splits)

subsection \<open>Fail-soft operations\<close>

lemma call_failsE:
  assumes "call_fails conn sp cmd w"
  obtains e w' where "conn sp cmd w = (Inl e, w')"
  using assms unfolding call_fails_def by (cases "conn sp cmd w") auto

lemma raising_call: "raising conn \<Longrightarrow> \<exists>e w'. conn sp cmd w = (Inl e, w')"
  unfolding raising_def call_fails_def by (metis prod.collapse)

lemma down_conn_fails [simp]: "call_fails down_conn sp cmd w"
  by (simp add: call_fails_def down_conn_def)

lemma down_conn_raising: "raising down_conn"
  by (simp add: raising_def)

text \<open>No operation lets an exception out.\<close>

lemma kv_never_raise:
  "\<exists>v. fst (exist conn k sp w) = Inr v"
  "\<exists>v. fst (get conn k sp w) = Inr v"
  "\<exists>v. fst (set' conn k x ex sp w) = Inr v"
  "\<exists>v. fst (set_obj P conn k x ex sp w) = Inr v"
  "\<exists>v. fst (delete conn k sp w) = Inr v"
  "\<exists>v. fst (expire conn k ex sp w) = Inr v"
  "\<exists>v. fst (ttl conn k sp w) = Inr v"
  "\<exists>v. fst (transaction P conn k x ex sp w) = Inr v"
  "\<exists>v. fst (health_check conn sp w) = Inr v"
  "\<exists>v. fst (is_alive conn sp w) = Inr v"
  "\<exists>v. fst (mget P conn ks sp w) = Inr v"
  "\<exists>v. fst (mset P conn kvs sp w) = Inr v"
  by (auto simp: exist_def get_def set'_def set_obj_def delete_def expire_def ttl_def transaction_def
        health_check_def is_alive_def mget_def mset_def
      split: prod.splits sum.splits)

lemma coll_never_raise:
  "\<exists>v. fst (hset P conn name f x sp w) = Inr v"
  "\<exists>v. fst (hget P conn name f dflt sp w) = Inr v"
  "\<exists>v. fst (hgetall P conn name sp w) = Inr v"
  "\<exists>v. fst (hdel conn name fs sp w) = Inr v"
  "\<exists>v. fst (lpush P conn name xs sp w) = Inr v"
  "\<exists>v. fst (rpop P conn name dflt sp w) = Inr v"
  "\<exists>v. fst (llen conn name sp w) = Inr v"
  "\<exists>v. fst (sadd conn k m sp w) = Inr v"
  "\<exists>v. fst (srem conn k m sp w) = Inr v"
  "\<exists>v. fst (smembers conn k sp w) = Inr v"
  "\<exists>v. fst (sismember conn k m sp w) = Inr v"
  "\<exists>v. fst (zadd conn k m sc sp w) = Inr v"
  "\<exists>v. fst (zcount conn k lo hi sp w) = Inr v"
  "\<exists>v. fst (zpopmin conn k n sp w) = Inr v"
  "\<exists>v. fst (zrangebyscore conn k lo hi sp w) = Inr v"
  by (auto simp: hset_def hget_def hgetall_def hdel_def lpush_def rpop_def llen_def sadd_def srem_def
        smembers_def sismember_def zadd_def zcount_def zpopmin_def zrangebyscore_def
      split: prod.splits sum.splits)

lemma queue_product_loop_returns: "\<exists>v. fst (queue_product_loop n P conn q m sp w) = Inr v"
  by (induction n arbitrary: w) (auto split: prod.splits sum.splits)

lemma queue_consumer_loop_returns: "\<exists>v. fst (queue_consumer_loop n P conn q g c mid sp w) = Inr v"
  by (induction n arbitrary: w mid) (auto split: prod.splits sum.splits)

lemma requeue_msg_loop_returns: "\<exists>v. fst (requeue_msg_loop n conn q g mid sp w) = Inr v"
  by (induction n arbitrary: w) (auto split: prod.splits sum.splits)

lemma queue_info_loop_returns: "\<exists>v. fst (queue_info_loop n conn q g sp w) = Inr v"
  by (induction n arbitrary: w) (auto split: prod.splits sum.splits option.splits)

lemma queue_never_raise:
  "\<exists>v. fst (queue_product P conn q m sp w) = Inr v"
  "\<exists>v. fst (queue_consumer P conn q g c mid sp w) = Inr v"
  "\<exists>v. fst (requeue_msg conn q g mid sp w) = Inr v"
  "\<exists>v. fst (queue_info conn q g sp w) = Inr v"
  "\<exists>v. fst (get_pending_msg conn q g sp w) = Inr v"
  "\<exists>v. fst (ack conn msg w) = Inr v"
  "\<exists>v. fst (delete_if_equal conn k x sp w) = Inr v"
  by (auto simp: queue_product_def queue_consumer_def requeue_msg_def queue_info_def
        queue_product_loop_returns queue_consumer_loop_returns requeue_msg_loop_returns
        queue_info_loop_returns get_pending_msg_def ack_def delete_if_equal_def
      split: prod.splits sum.splits)

text \<open>The value of an operation whose store call raises.\<close>

lemma fails_all_not_Inr:
  assumes "\<forall>cmd. call_fails conn sp cmd w" "conn sp cmd w = (Inr x, w')"
  shows False
proof -
  from assms(1) have "call_fails conn sp cmd w" by blast
  then show False using assms(2) by (simp add: call_fails_def)
qed

lemma kv_defaults:
  assumes "\<forall>cmd. call_fails conn sp cmd w"
  shows "fst (exist conn k sp w) = Inr False"
    "fst (get conn k sp w) = Inr PNone"
    "fst (set' conn k x ex sp w) = Inr False"
    "fst (set_obj P conn k x ex sp w) = Inr False"
    "fst (delete conn k sp w) = Inr False"
    "fst (delete_if_equal conn k s sp w) = Inr False"
    "fst (expire conn k ex sp w) = Inr False"
    "fst (ttl conn k sp w) = Inr (PInt (- 2))"
    "fst (transaction P conn k x ex sp w) = Inr False"
    "fst (health_check conn sp w) = Inr False"
    "fst (is_alive conn sp w) = Inr False"
    "fst (mget P conn ks sp w) = Inr (replicate (length ks) PNone)"
    "fst (mset P conn kvs sp w) = Inr False"
  using assms
  by (auto simp: exist_def get_def set'_def set_obj_def delete_def delete_if_equal_def expire_def
        ttl_def transaction_def health_check_def is_alive_def mget_def mset_def
      split: prod.splits sum.splits dest: fails_all_not_Inr)

lemma coll_defaults:
  assumes "\<forall>cmd. call_fails conn sp cmd w"
  shows "fst (hset P conn name f x sp w) = Inr False"
    "fst (hget P conn name f dflt sp w) = Inr dflt"
    "fst (hgetall P conn name sp w) = Inr (PDict [])"
    "fst (hdel conn name fs sp w) = Inr (PInt 0)"
    "fst (lpush P conn name xs sp w) = Inr (PInt 0)"
    "fst (rpop P conn name dflt sp w) = Inr dflt"
    "fst (llen conn name sp w) = Inr (PInt 0)"
    "fst (sadd conn k m sp w) = Inr False"
    "fst (srem conn k m sp w) = Inr False"
    "fst (smembers conn k sp w) = Inr (PSet [])"
    "fst (sismember conn k m sp w) = Inr False"
    "fst (zadd conn k m sc sp w) = Inr False"
    "fst (zcount conn k lo hi sp w) = Inr (PInt 0)"
    "fst (zpopmin conn k n sp w) = Inr (PList [])"
    "fst (zrangebyscore conn k lo hi sp w) = Inr (PList [])"
    "fst (get_pending_msg conn q g sp w) = Inr (PList [])"
  using assms
  by (auto simp: hset_def hget_def hgetall_def hdel_def lpush_def rpop_def llen_def sadd_def srem_def
        smembers_def sismember_def zadd_def zcount_def zpopmin_def zrangebyscore_def
        get_pending_msg_def
      split: prod.splits sum.splits dest: fails_all_not_Inr)

lemma ack_default:
  "call_fails conn (m_consumer msg) (XACK (m_queue_name msg) (m_group_name msg) (m_msg_id msg)) w \<Longrightarrow>
   fst (ack conn msg w) = Inr False"
  by (auto simp: ack_def call_fails_def split: prod.splits sum.splits)

lemma queue_product_loop_down:
  "raising conn \<Longrightarrow> fst (queue_product_loop n P conn q m sp w) = Inr False"
proof (induction n arbitrary: w)
  case 0
  then show ?case by simp
next
  case (Suc n)
  show ?case
  proof (cases "dumps P m")
    case (Inl e)
    then show ?thesis using Suc by simp
  next
    case (Inr s)
    from raising_call[OF Suc.prems, of sp "XADD q (PDict [(PStr ''message'', PStr s)])" w]
    show ?thesis using Inr Suc by auto
  qed
qed

lemma ensure_group_down:
  assumes "raising conn"
  shows "\<exists>e w'. ensure_group conn q g sp w = (Inl e, w')"
proof -
  from raising_call[OF assms, of sp "XINFO_GROUPS q" w]
  obtain e w1 where 1: "conn sp (XINFO_GROUPS q) w = (Inl e, w1)" by blast
  from raising_call[OF assms, of sp "XGROUP_CREATE q g ''0'' True" w1]
  obtain e2 w2 where 2: "conn sp (XGROUP_CREATE q g ''0'' True) w1 = (Inl e2, w2)" by blast
  show ?thesis using 1 2 by (simp add: ensure_group_def create_group_def)
qed

lemma consume_attempt_down:
  assumes "raising conn"
  shows "\<exists>e w'. consume_attempt P conn q g c mid sp w = (Inl e, mid, w')"
  using ensure_group_down[OF assms, of q g sp w]
  by (auto simp: consume_attempt_def)

lemma queue_consumer_loop_down:
  "raising conn \<Longrightarrow> fst (queue_consumer_loop n P conn q g c mid sp w) = Inr None"
proof (induction n arbitrary: w)
  case 0
  then show ?case by simp
next
  case (Suc n)
  from consume_attempt_down[OF Suc.prems, of P q g c mid sp w]
  show ?case using Suc by auto
qed

lemma requeue_msg_loop_down:
  "raising conn \<Longrightarrow> fst (requeue_msg_loop n conn q g mid sp w) = Inr False"
proof (induction n arbitrary: w)
  case 0
  then show ?case by simp
next
  case (Suc n)
  from raising_call[OF Suc.prems, of sp "XRANGE q mid mid" w]
  show ?case using Suc by auto
qed

lemma queue_info_loop_down:
  "raising conn \<Longrightarrow> fst (queue_info_loop n conn q g sp w) = Inr PNone"
proof (induction n arbitrary: w)
  case 0
  then show ?case by simp
next
  case (Suc n)
  from raising_call[OF Suc.prems, of sp "XINFO_GROUPS q" w]
  show ?case using Suc by auto
qed

lemma unacked_poll_down:
  assumes "raising conn" "fst (rest (snd (queue_consumer P conn q g c cm sp w))) = None"
  shows "fst (unacked_poll P conn g c sp q qs cm gi rest w) = None"
proof -
  have "fst (queue_consumer P conn q g c cm sp w) = Inr None"
    using queue_consumer_loop_down[OF assms(1)] by (simp add: queue_consumer_def)
  then show ?thesis using assms(2)
    by (cases "queue_consumer P conn q g c cm sp w") (simp add: unacked_poll_def)
qed

lemma unacked_scan_down:
  "raising conn \<Longrightarrow> fst (unacked_scan P conn g c sp qs gi w) = None"
proof (induction qs arbitrary: w gi)
  case Nil
  then show ?case by simp
next
  case (Cons q qs)
  from raising_call[OF Cons.prems, of sp "XINFO_GROUPS q" w]
  obtain e w1 where 1: "conn sp (XINFO_GROUPS q) w = (Inl e, w1)" by blast
  note ih = Cons.IH[OF Cons.prems]
  show ?case
    using 1 ih unacked_poll_down[OF Cons.prems, of "\<lambda>w2. unacked_scan P conn g c sp qs gi w2"]
    by (auto split: option.splits sum.splits bool.splits)
qed

lemma unacked_next_down:
  "raising conn \<Longrightarrow> fst (unacked_next P conn g c sp st w) = None"
  using unacked_scan_down[of conn P g c sp] unacked_poll_down[of conn]
  by (auto simp: unacked_next_def split: option.splits list.splits)

subsection \<open>One call in any environment\<close>

lemma answered_quiet: "schedule w = [] \<Longrightarrow> answered w = w"
  by (simp add: answered_def arrival_def next_took_def)

lemma sim_conn_eq:
  "sim_conn sp cmd w =
     (case next_raises w of
        Some x \<Rightarrow> (Inl x, (answered w)\<lparr>trace := trace w @ [(sp, cmd, Inl x)]\<rparr>)
      | None \<Rightarrow> run_on sp cmd (answered w))"
proof (cases "schedule w")
  case Nil
  then show ?thesis by (simp add: sim_conn_quiet answered_quiet next_raises_def)
next
  case (Cons e es)
  then show ?thesis
    by (simp add: sim_conn_def answered_def arrival_def next_raises_def next_took_def Let_def
          split: option.splits)
qed

lemma answered_simps [simp]:
  "dbs (answered w) = arrival w" "trace (answered w) = trace w"
  "clock (answered w) = clock w + int (next_took w)" "schedule (answered w) = tl (schedule w)"
  by (simp_all add: answered_def)

lemma die_general:
  "delete_if_equal sim_conn key v sp w =
     (Inr (next_raises w = None \<and> string_value (arrival w sp) key = Some v),
      (answered w)\<lparr>dbs := (if next_raises w = None \<and> string_value (arrival w sp) key = Some v
                           then (arrival w)(sp := (arrival w sp)(key := None)) else arrival w),
                   trace := trace w @ [(sp, EVALSCRIPT Lua_delete_if_equal [key] [v],
                     case next_raises w of Some x \<Rightarrow> Inl x
                     | None \<Rightarrow> fst (run_script Lua_delete_if_equal [key] [v] (arrival w sp)))]\<rparr>)"
proof (cases "next_raises w")
  case None
  have "(arrival w)(sp := arrival w sp) = arrival w" by simp
  then show ?thesis
    unfolding delete_if_equal_def sim_conn_eq
    using None by (simp add: die_run_on compare_and_delete_spec_def)
next
  case (Some x)
  then show ?thesis
    unfolding delete_if_equal_def sim_conn_eq
    by (simp add: answered_def get_lua_script_def get_script_content_def)
qed

lemma set_general:
  "sim_conn sp (SET_NX_EX k v t) w =
     (let raised = (next_raises w \<noteq> None \<or> t \<le> 0);
          wrote = (\<not> raised \<and> arrival w sp k = None)
      in ((case next_raises w of Some x \<Rightarrow> Inl x
           | None \<Rightarrow> if t \<le> 0 then Inl invalid_expire
                     else if wrote then Inr (PBool True) else Inr PNone),
          (answered w)\<lparr>dbs := (if wrote then (arrival w)(sp := (arrival w sp)(k \<mapsto> VString v (Some t)))
                                else arrival w),
                       trace := trace w @ [(sp, SET_NX_EX k v t,
                          case next_raises w of Some x \<Rightarrow> Inl x
                          | None \<Rightarrow> if t \<le> 0 then Inl invalid_expire
                                    else if wrote then Inr (PBool True) else Inr PNone)]\<rparr>))"
proof -
  have id: "(arrival w)(sp := arrival w sp) = arrival w" by simp
  show ?thesis
    unfolding sim_conn_eq
    by (cases "next_raises w") (auto simp: run_on_eq set_nx_ex_def Let_def answered_def id)
qed

subsection \<open>Release and acquire in any environment\<close>

lemma arrival_alone: "alone w \<Longrightarrow> arrival w = dbs w"
  by (cases "schedule w") (auto simp: arrival_def alone_def)









subsection \<open>The race for a key\<close>

lemma alone_tl: "alone w \<Longrightarrow> schedule w' = tl (schedule w) \<Longrightarrow> alone w'"
  by (cases "schedule w") (auto simp: alone_def)

lemma no_failure_tl: "no_failure w \<Longrightarrow> schedule w' = tl (schedule w) \<Longrightarrow> no_failure w'"
  by (cases "schedule w") (auto simp: no_failure_def)

lemma no_failure_next: "no_failure w \<Longrightarrow> next_raises w = None"
  by (cases "schedule w") (auto simp: no_failure_def next_raises_def)

lemma proc_step_cleared_calm:
  assumes "p_pc p = Cleared" "alone w" "no_failure w" "0 < timeout (p_lock p)"
  shows "proc_step sim_conn p w =
     (let free = (dbs w (space (p_lock p)) (lock_key (p_lock p)) = None) in
      (\<lparr>p_lock = (p_lock p)\<lparr>acquired := free\<rparr>, p_pc = Returned free\<rparr>,
       (answered w)\<lparr>dbs := (if free
                  then (dbs w)(space (p_lock p) := (dbs w (space (p_lock p)))
                         (lock_key (p_lock p) \<mapsto> VString (lock_value (p_lock p)) (Some (timeout (p_lock p)))))
                  else dbs w),
         trace := trace w @ [(space (p_lock p),
            SET_NX_EX (lock_key (p_lock p)) (lock_value (p_lock p)) (timeout (p_lock p)),
            Inr (if free then PBool True else PNone))]\<rparr>))"
  using assms by (simp add: proc_step_def set_general no_failure_next arrival_alone Let_def)

lemma proc_step_race:
  assumes inv: "race_inv sp k ps w" and own: "own_tokens ps" and on: "all_on sp k ps"
    and al: "alone w" and nf: "no_failure w" and i: "i < length ps"
    and st: "proc_step sim_conn (ps ! i) w = (p', w')"
  shows "race_inv sp k (ps[i := p']) w' \<and> own_tokens (ps[i := p']) \<and> all_on sp k (ps[i := p']) \<and>
         alone w' \<and> no_failure w'"
proof -
  let ?p = "ps ! i"
  note flds = proc_step_lock_fields[OF st]
  have own': "own_tokens (ps[i := p'])"
    using own_tokens_update[OF own i] flds by simp
  have on': "all_on sp k (ps[i := p'])"
    using all_on_update[OF on i] flds by simp
  have pi: "space (p_lock ?p) = sp" "lock_key (p_lock ?p) = k" "0 < timeout (p_lock ?p)"
    using on i by (simp_all add: all_on_def)
  have r1: "\<And>j. j < length ps \<Longrightarrow> p_pc (ps ! j) = Returned True \<Longrightarrow>
              string_value (dbs w sp) k = Some (lock_value (p_lock (ps ! j)))"
    and r2: "\<And>j. j < length ps \<Longrightarrow> p_pc (ps ! j) = Returned False \<Longrightarrow> dbs w sp k \<noteq> None"
    and r3: "dbs w sp k \<noteq> None \<Longrightarrow> \<exists>j < length ps. p_pc (ps ! j) = Returned True \<and>
            string_value (dbs w sp) k = Some (lock_value (p_lock (ps ! j)))"
    using inv by (simp_all add: race_inv_def)
  have clash: "\<And>j. j < length ps \<Longrightarrow> j \<noteq> i \<Longrightarrow> lock_value (p_lock (ps ! j)) \<noteq> lock_value (p_lock ?p)"
  proof -
    fix j assume j: "j < length ps" "j \<noteq> i"
    have "same_lock (ps ! j) (ps ! i)" using on i j by (simp add: same_lock_def all_on_def)
    then show "lock_value (p_lock (ps ! j)) \<noteq> lock_value (p_lock ?p)"
      using own i j by (simp add: own_tokens_def)
  qed
  show ?thesis
  proof (cases "p_pc ?p")
    case Idle
    have nomatch: "string_value (dbs w sp) k \<noteq> Some (lock_value (p_lock ?p))"
    proof
      assume m: "string_value (dbs w sp) k = Some (lock_value (p_lock ?p))"
      then have "dbs w sp k \<noteq> None" by (rule string_value_SomeD)
      from r3[OF this] obtain j where j: "j < length ps" "p_pc (ps ! j) = Returned True"
        "string_value (dbs w sp) k = Some (lock_value (p_lock (ps ! j)))" by blast
      then have "j \<noteq> i" using Idle by auto
      from clash[OF j(1) this] j(3) m show False by simp
    qed
    have p': "p' = ?p\<lparr>p_pc := Cleared\<rparr>" and w': "dbs w' = dbs w" "schedule w' = tl (schedule w)"
      using st nomatch pi
      by (auto simp: proc_step_idle[OF Idle] die_general arrival_alone[OF al])
    have "race_inv sp k (ps[i := p']) w'"
      unfolding race_inv_def
    proof (intro conjI allI impI)
      fix j assume "j < length (ps[i := p'])" "p_pc (ps[i := p'] ! j) = Returned True"
      then show "string_value (dbs w' sp) k = Some (lock_value (p_lock (ps[i := p'] ! j)))"
        using r1[of j] p' w' by (cases "j = i") auto
    next
      fix j assume "j < length (ps[i := p'])" "p_pc (ps[i := p'] ! j) = Returned False"
      then show "dbs w' sp k \<noteq> None"
        using r2[of j] p' w' by (cases "j = i") auto
    next
      assume "dbs w' sp k \<noteq> None"
      then have "dbs w sp k \<noteq> None" using w' by simp
      from r3[OF this] obtain j where j: "j < length ps" "p_pc (ps ! j) = Returned True"
        "string_value (dbs w sp) k = Some (lock_value (p_lock (ps ! j)))" by blast
      then have "j \<noteq> i" using Idle by auto
      then show "\<exists>j<length (ps[i := p']). p_pc (ps[i := p'] ! j) = Returned True \<and>
           string_value (dbs w' sp) k = Some (lock_value (p_lock (ps[i := p'] ! j)))"
        using j w' by (intro exI[of _ j]) simp
    qed
    then show ?thesis using own' on' alone_tl[OF al w'(2)] no_failure_tl[OF nf w'(2)] by simp
  next
    case Cleared
    let ?free = "dbs w sp k = None"
    from st proc_step_cleared_calm[OF Cleared al nf pi(3)] pi
    have p': "p_pc p' = Returned ?free" "lock_value (p_lock p') = lock_value (p_lock ?p)"
      and w': "dbs w' = (if ?free then (dbs w)(sp := (dbs w sp)(k \<mapsto>
                  VString (lock_value (p_lock ?p)) (Some (timeout (p_lock ?p))))) else dbs w)"
              "schedule w' = tl (schedule w)"
      by (auto simp: Let_def)
    have "race_inv sp k (ps[i := p']) w'"
    proof (cases ?free)
      case True
      have none: "\<And>j. j < length ps \<Longrightarrow> j \<noteq> i \<Longrightarrow> p_pc (ps ! j) \<noteq> Returned True \<and> p_pc (ps ! j) \<noteq> Returned False"
      proof -
        fix j assume j: "j < length ps" "j \<noteq> i"
        show "p_pc (ps ! j) \<noteq> Returned True \<and> p_pc (ps ! j) \<noteq> Returned False"
          using r1[OF j(1)] r2[OF j(1)] True by auto
      qed
      show ?thesis unfolding race_inv_def
      proof (intro conjI allI impI)
        fix j assume "j < length (ps[i := p'])" "p_pc (ps[i := p'] ! j) = Returned True"
        then show "string_value (dbs w' sp) k = Some (lock_value (p_lock (ps[i := p'] ! j)))"
          using none[of j] p' w' True by (cases "j = i") (auto simp: string_value_def)
      next
        fix j assume "j < length (ps[i := p'])" "p_pc (ps[i := p'] ! j) = Returned False"
        then show "dbs w' sp k \<noteq> None"
          using w' True by simp
      next
        show "\<exists>j<length (ps[i := p']). p_pc (ps[i := p'] ! j) = Returned True \<and>
           string_value (dbs w' sp) k = Some (lock_value (p_lock (ps[i := p'] ! j)))"
          using i p' w' True by (intro exI[of _ i]) (simp add: string_value_def)
      qed
    next
      case False
      have same: "dbs w' = dbs w" unfolding w'(1) using False by (simp only: if_False)
      from r3[OF False] obtain j where j: "j < length ps" "p_pc (ps ! j) = Returned True"
        "string_value (dbs w sp) k = Some (lock_value (p_lock (ps ! j)))" by blast
      then have ji: "j \<noteq> i" using Cleared by auto
      show ?thesis unfolding race_inv_def
      proof (intro conjI allI impI)
        fix j' assume "j' < length (ps[i := p'])" "p_pc (ps[i := p'] ! j') = Returned True"
        then show "string_value (dbs w' sp) k = Some (lock_value (p_lock (ps[i := p'] ! j')))"
          using r1[of j'] p' same False by (cases "j' = i") auto
      next
        fix j' assume "j' < length (ps[i := p'])" "p_pc (ps[i := p'] ! j') = Returned False"
        then show "dbs w' sp k \<noteq> None" using same False by simp
      next
        show "\<exists>j<length (ps[i := p']). p_pc (ps[i := p'] ! j) = Returned True \<and>
           string_value (dbs w' sp) k = Some (lock_value (p_lock (ps[i := p'] ! j)))"
          using j ji same by (intro exI[of _ j]) simp
      qed
    qed
    then show ?thesis using own' on' alone_tl[OF al w'(2)] no_failure_tl[OF nf w'(2)] by simp
  next
    case (Returned b)
    then have "p' = ?p" "w' = w" using st by (simp_all add: proc_step_returned)
    then show ?thesis using inv own on al nf by simp
  qed
qed

lemma run_acquires_race:
  assumes "race_inv sp k ps w" "own_tokens ps" "all_on sp k ps" "alone w" "no_failure w"
  shows "race_inv sp k (fst (run_acquires sim_conn order (ps, w))) (snd (run_acquires sim_conn order (ps, w)))
       \<and> own_tokens (fst (run_acquires sim_conn order (ps, w)))
       \<and> all_on sp k (fst (run_acquires sim_conn order (ps, w)))"
  using assms
proof (induction order arbitrary: ps w)
  case Nil
  then show ?case by simp
next
  case (Cons i order)
  show ?case
  proof (cases "i < length ps")
    case True
    obtain p' w' where st: "proc_step sim_conn (ps ! i) w = (p', w')" by force
    from proc_step_race[OF Cons.prems True st]
    show ?thesis using Cons.IH[of "ps[i := p']" w'] True st by simp
  next
    case False
    then show ?thesis using Cons.IH[OF Cons.prems] by simp
  qed
qed

text \<open>On a taken key nothing is written and nobody wins.\<close>

lemma proc_step_taken:
  assumes tk: "taken w p" and lo: "lost p" and al: "alone w"
    and st: "proc_step sim_conn p w = (p', w')"
  shows "lost p' \<and> dbs w' = dbs w \<and> alone w'"
proof (cases "p_pc p")
  case Idle
  from tk have nm: "string_value (dbs w (space (p_lock p))) (lock_key (p_lock p)) \<noteq> Some (lock_value (p_lock p))"
    by (simp add: taken_def)
  have "p' = p\<lparr>p_pc := Cleared\<rparr>" "dbs w' = dbs w" "schedule w' = tl (schedule w)"
    using st nm by (auto simp: proc_step_idle[OF Idle] die_general arrival_alone[OF al])
  then show ?thesis using lo alone_tl[OF al] by (simp add: lost_def)
next
  case Cleared
  from tk have nn: "dbs w (space (p_lock p)) (lock_key (p_lock p)) \<noteq> None"
    by (simp add: taken_def)
  have "lost p'" "dbs w' = dbs w" "schedule w' = tl (schedule w)"
    using st nn lo Cleared
    by (auto simp: proc_step_def set_general arrival_alone[OF al] Let_def lost_def
          split: option.splits if_splits)
  then show ?thesis using alone_tl[OF al] by simp
next
  case (Returned b)
  then have "p' = p" "w' = w" using st by (simp_all add: proc_step_returned)
  then show ?thesis using lo al by simp
qed

lemma taken_cong:
  assumes "dbs w' = dbs w" "space (p_lock p') = space (p_lock p)" "lock_key (p_lock p') = lock_key (p_lock p)"
    "lock_value (p_lock p') = lock_value (p_lock p)"
  shows "taken w' p' = taken w p"
  using assms by (simp add: taken_def)

lemma run_acquires_taken:
  assumes "list_all (taken w) ps" "list_all lost ps" "alone w"
  shows "list_all lost (fst (run_acquires sim_conn order (ps, w)))
       \<and> dbs (snd (run_acquires sim_conn order (ps, w))) = dbs w"
  using assms
proof (induction order arbitrary: ps w)
  case Nil
  then show ?case by simp
next
  case (Cons i order)
  show ?case
  proof (cases "i < length ps")
    case True
    obtain p' w' where st: "proc_step sim_conn (ps ! i) w = (p', w')" by force
    have tk: "taken w (ps ! i)" and lo: "lost (ps ! i)"
      using Cons.prems True by (simp_all add: list_all_length)
    from proc_step_taken[OF tk lo Cons.prems(3) st]
    have s: "lost p'" "dbs w' = dbs w" "alone w'" by simp_all
    note flds = proc_step_lock_fields[OF st]
    have t': "list_all (taken w') (ps[i := p'])"
      unfolding list_all_length
    proof (intro allI impI)
      fix j assume j: "j < length (ps[i := p'])"
      show "taken w' (ps[i := p'] ! j)"
      proof (cases "j = i")
        case True
        then show ?thesis using j tk taken_cong[OF s(2), of p' "ps ! i"] flds by simp
      next
        case False
        then show ?thesis using j Cons.prems(1) taken_cong[OF s(2), of "ps ! j" "ps ! j"]
          by (simp add: list_all_length)
      qed
    qed
    have l': "list_all lost (ps[i := p'])"
      using Cons.prems(2) s(1) True by (auto simp: list_all_length nth_list_update)
    from Cons.IH[OF t' l' s(3)] show ?thesis using True st s(2) by simp
  next
    case False
    then show ?thesis using Cons.IH[OF Cons.prems] by simp
  qed
qed

lemma fresh_lost: "list_all fresh ps \<Longrightarrow> list_all lost ps"
  by (simp add: list_all_length fresh_def lost_def)

text \<open>
  C1, as amended. Instances that are not marked held, each with its own token, call
  \<^verbatim>\<open>acquire\<close> concurrently while nobody else writes the keyspace (no hold time runs
  out, no other client writes); store calls may fail or be slow. After any number of
  steps in any order, no two instances on one key are both marked held. If the key of
  every instance holds something that is not its token, no instance returns true or is
  marked held and the keyspace stays as it was. If no store call fails, all instances
  are on one key that is absent at the start, with a positive hold time, there is at
  least one instance and all calls have returned, then exactly one call has returned true.
\<close>

theorem acquire_mutual_exclusion:
  assumes "list_all fresh ps" "own_tokens ps" "alone w"
  shows "(\<forall>i j. i < length (fst (run_acquires sim_conn order (ps, w))) \<and>
                j < length (fst (run_acquires sim_conn order (ps, w))) \<and>
                acquired (p_lock (fst (run_acquires sim_conn order (ps, w)) ! i)) \<and>
                acquired (p_lock (fst (run_acquires sim_conn order (ps, w)) ! j)) \<and>
                same_lock (fst (run_acquires sim_conn order (ps, w)) ! i)
                          (fst (run_acquires sim_conn order (ps, w)) ! j) \<longrightarrow> i = j)
       \<and> (list_all (taken w) ps \<longrightarrow>
            list_all lost (fst (run_acquires sim_conn order (ps, w))) \<and>
            dbs (snd (run_acquires sim_conn order (ps, w))) = dbs w)
       \<and> (no_failure w \<and> all_on sp k ps \<and> dbs w sp k = None \<and> ps \<noteq> [] \<and>
          all_returned (fst (run_acquires sim_conn order (ps, w))) \<longrightarrow>
          (\<exists>!i. i < length (fst (run_acquires sim_conn order (ps, w))) \<and>
                 p_pc (fst (run_acquires sim_conn order (ps, w)) ! i) = Returned True))"
proof (intro conjI allI impI)
  fix i j
  let ?ps = "fst (run_acquires sim_conn order (ps, w))"
  assume a: "i < length ?ps \<and> j < length ?ps \<and> acquired (p_lock (?ps ! i)) \<and>
             acquired (p_lock (?ps ! j)) \<and> same_lock (?ps ! i) (?ps ! j)"
  from run_acquires_inv[OF fresh_lock_inv[OF assms(1)] assms(2,3), where order=order]
  have "lock_inv ?ps (snd (run_acquires sim_conn order (ps, w)))" "own_tokens ?ps" by simp_all
  from held_indices_unique[OF this] a show "i = j" by blast
next
  assume t: "list_all (taken w) ps"
  from run_acquires_taken[OF t fresh_lost[OF assms(1)] assms(3), of order]
  show "list_all lost (fst (run_acquires sim_conn order (ps, w)))"
    and "dbs (snd (run_acquires sim_conn order (ps, w))) = dbs w" by simp_all
next
  let ?ps = "fst (run_acquires sim_conn order (ps, w))"
  assume a: "no_failure w \<and> all_on sp k ps \<and> dbs w sp k = None \<and> ps \<noteq> [] \<and> all_returned ?ps"
  then have r: "race_inv sp k ps w" using fresh_race_inv[OF assms(1)] by simp
  from a have q: "no_failure w" and on: "all_on sp k ps" by simp_all
  from run_acquires_race[OF r assms(2) on assms(3) q, where order=order]
  have "race_inv sp k ?ps (snd (run_acquires sim_conn order (ps, w)))" "own_tokens ?ps" "all_on sp k ?ps"
    by simp_all
  moreover have "length ?ps = length ps" by simp
  then have "?ps \<noteq> []" using a by (metis length_0_conv)
  ultimately show "\<exists>!i. i < length ?ps \<and> p_pc (?ps ! i) = Returned True"
    using race_inv_exactly_one a by blast
qed

lemmas run_simps =
  procs_AB_def proc_A_def proc_B_def proc_Z_def proc_A_held_def lock_A_def lock_Z_def get_lock_def
  RedisDistributedLock_init_def world0_def held_by_def meddled_world_def set_fails_world_def
  proc_step_def delete_if_equal_def sim_conn_def run_on_def
  get_lua_script_def get_script_content_def lua_get_def set_nx_ex_def invalid_expire_def

lemma procs_AB_setup:
  "list_all fresh procs_AB \<and> own_tokens procs_AB \<and> all_on DEFAULT ''job:42'' procs_AB \<and> procs_AB \<noteq> []"
  by (auto simp: procs_AB_def proc_A_def proc_B_def lock_A_def get_lock_def RedisDistributedLock_init_def
        fresh_def own_tokens_def all_on_def same_lock_def less_Suc_eq)

lemma all_returned_map:
  "all_returned ps = list_all (\<lambda>c. c \<noteq> Idle \<and> c \<noteq> Cleared) (map p_pc ps)"
  by (simp add: all_returned_def list_all_iff)

lemma procs_AB_run:
  "map p_pc (fst (run_acquires sim_conn [0, 1, 1, 0] (procs_AB, world0))) = [Returned False, Returned True]"
  by (simp add: run_simps)

lemma procs_AB_taken:
  "list_all (taken (held_by ''tokenC'')) procs_AB"
  by (simp add: run_simps taken_def string_value_def)

theorem acquire_race_witness:
  "list_all fresh procs_AB \<and> own_tokens procs_AB \<and> alone world0 \<and> no_failure world0 \<and>
   all_on DEFAULT ''job:42'' procs_AB \<and> dbs world0 DEFAULT ''job:42'' = None \<and> procs_AB \<noteq> [] \<and>
   all_returned (fst (run_acquires sim_conn [0, 1, 1, 0] (procs_AB, world0))) \<and>
   map p_pc (fst (run_acquires sim_conn [0, 1, 1, 0] (procs_AB, world0))) = [Returned False, Returned True] \<and>
   (\<exists>!i. i < length (fst (run_acquires sim_conn [0, 1, 1, 0] (procs_AB, world0))) \<and>
          p_pc (fst (run_acquires sim_conn [0, 1, 1, 0] (procs_AB, world0)) ! i) = Returned True) \<and>
   alone (held_by ''tokenC'') \<and> list_all (taken (held_by ''tokenC'')) procs_AB \<and>
   list_all lost (fst (run_acquires sim_conn [0, 1, 0, 1] (procs_AB, held_by ''tokenC''))) \<and>
   dbs (snd (run_acquires sim_conn [0, 1, 0, 1] (procs_AB, held_by ''tokenC''))) = dbs (held_by ''tokenC'')"
proof -
  have prep: "list_all fresh procs_AB" "own_tokens procs_AB" "all_on DEFAULT ''job:42'' procs_AB"
    "procs_AB \<noteq> []"
    using procs_AB_setup by simp_all
  have w: "alone world0" "no_failure world0" "dbs world0 DEFAULT ''job:42'' = None"
    "alone (held_by ''tokenC'')"
    by (simp_all add: world0_def held_by_def alone_def no_failure_def)
  have ret: "all_returned (fst (run_acquires sim_conn [0, 1, 1, 0] (procs_AB, world0)))"
    unfolding all_returned_map procs_AB_run by simp
  from acquire_mutual_exclusion[OF prep(1,2) w(1), of "[0, 1, 1, 0]" DEFAULT "''job:42''"]
       acquire_mutual_exclusion[OF prep(1,2) w(4), of "[0, 1, 0, 1]"]
       prep w ret procs_AB_run procs_AB_taken
  show ?thesis by blast
qed

theorem acquire_taken_key_counterexample:
  "own_tokens procs_AB \<and> list_all fresh procs_AB \<and>
   map p_pc (fst (run_acquires sim_conn [0, 1, 0, 1] (procs_AB, held_by ''tokenC''))) =
     [Returned False, Returned False] \<and>
   own_tokens [proc_A_held, proc_B] \<and>
   string_value (dbs (held_by ''tokenA'') DEFAULT) ''job:42'' = Some (lock_value (p_lock proc_A_held)) \<and>
   map (\<lambda>p. (p_pc p, acquired (p_lock p)))
     (fst (run_acquires sim_conn [0, 1, 1] ([proc_A_held, proc_B], held_by ''tokenA''))) =
     [(Cleared, True), (Returned True, True)] \<and>
   map (\<lambda>p. (p_pc p, acquired (p_lock p)))
     (fst (run_acquires sim_conn [0, 0, 1, 1] (procs_AB, meddled_world))) =
     [(Returned True, True), (Returned True, True)] \<and>
   map p_pc (fst (run_acquires sim_conn [0, 0] ([proc_A], set_fails_world))) = [Returned False] \<and>
   map p_pc (fst (run_acquires sim_conn [0, 0] ([proc_Z], world0))) = [Returned False]"
  using procs_AB_setup
  by (simp add: run_simps alone_def own_tokens_def same_lock_def less_Suc_eq string_value_def)

subsection \<open>The polling loop\<close>



lemma spent_0 [simp]: "spent 0 w = 0"
  by (simp add: spent_def)














subsection \<open>The defaults\<close>

lemma fail_soft_single:
  "((\<exists>v. fst (exist conn k sp w) = Inr v) \<and> (\<exists>v. fst (get conn k sp w) = Inr v) \<and>
    (\<exists>v. fst (set' conn k x ex sp w) = Inr v) \<and> (\<exists>v. fst (set_obj P conn k x ex sp w) = Inr v) \<and>
    (\<exists>v. fst (delete conn k sp w) = Inr v) \<and> (\<exists>v. fst (delete_if_equal conn k s sp w) = Inr v) \<and>
    (\<exists>v. fst (hset P conn name f x sp w) = Inr v) \<and> (\<exists>v. fst (hget P conn name f dflt sp w) = Inr v) \<and>
    (\<exists>v. fst (hgetall P conn name sp w) = Inr v) \<and> (\<exists>v. fst (hdel conn name fs sp w) = Inr v) \<and>
    (\<exists>v. fst (lpush P conn name xs sp w) = Inr v) \<and> (\<exists>v. fst (rpop P conn name dflt sp w) = Inr v) \<and>
    (\<exists>v. fst (llen conn name sp w) = Inr v) \<and>
    (\<exists>v. fst (sadd conn k m sp w) = Inr v) \<and> (\<exists>v. fst (srem conn k m sp w) = Inr v) \<and>
    (\<exists>v. fst (smembers conn k sp w) = Inr v) \<and> (\<exists>v. fst (sismember conn k m sp w) = Inr v) \<and>
    (\<exists>v. fst (zadd conn k m sc sp w) = Inr v) \<and> (\<exists>v. fst (zcount conn k lo hi sp w) = Inr v) \<and>
    (\<exists>v. fst (zpopmin conn k n sp w) = Inr v) \<and> (\<exists>v. fst (zrangebyscore conn k lo hi sp w) = Inr v) \<and>
    (\<exists>v. fst (expire conn k ex sp w) = Inr v) \<and> (\<exists>v. fst (ttl conn k sp w) = Inr v) \<and>
    (\<exists>v. fst (transaction P conn k x ex sp w) = Inr v) \<and>
    (\<exists>v. fst (health_check conn sp w) = Inr v) \<and> (\<exists>v. fst (is_alive conn sp w) = Inr v) \<and>
    (\<exists>v. fst (mget P conn ks sp w) = Inr v) \<and> (\<exists>v. fst (mset P conn kvs sp w) = Inr v) \<and>
    (\<exists>v. fst (queue_product P conn q x sp w) = Inr v) \<and>
    (\<exists>v. fst (queue_consumer P conn q g c mid sp w) = Inr v) \<and>
    (\<exists>v. fst (ack conn msg w) = Inr v) \<and>
    (\<exists>v. fst (get_pending_msg conn q g sp w) = Inr v) \<and>
    (\<exists>v. fst (requeue_msg conn q g mid sp w) = Inr v) \<and>
    (\<exists>v. fst (queue_info conn q g sp w) = Inr v))
   \<and> ((\<forall>cmd. call_fails conn sp cmd w) \<longrightarrow>
        fst (exist conn k sp w) = Inr False \<and> fst (get conn k sp w) = Inr PNone \<and>
        fst (set' conn k x ex sp w) = Inr False \<and> fst (set_obj P conn k x ex sp w) = Inr False \<and>
        fst (delete conn k sp w) = Inr False \<and> fst (delete_if_equal conn k s sp w) = Inr False \<and>
        fst (hset P conn name f x sp w) = Inr False \<and> fst (hget P conn name f dflt sp w) = Inr dflt \<and>
        fst (hgetall P conn name sp w) = Inr (PDict []) \<and> fst (hdel conn name fs sp w) = Inr (PInt 0) \<and>
        fst (lpush P conn name xs sp w) = Inr (PInt 0) \<and> fst (rpop P conn name dflt sp w) = Inr dflt \<and>
        fst (llen conn name sp w) = Inr (PInt 0) \<and>
        fst (sadd conn k m sp w) = Inr False \<and> fst (srem conn k m sp w) = Inr False \<and>
        fst (smembers conn k sp w) = Inr (PSet []) \<and> fst (sismember conn k m sp w) = Inr False \<and>
        fst (zadd conn k m sc sp w) = Inr False \<and> fst (zcount conn k lo hi sp w) = Inr (PInt 0) \<and>
        fst (zpopmin conn k n sp w) = Inr (PList []) \<and>
        fst (zrangebyscore conn k lo hi sp w) = Inr (PList []) \<and>
        fst (expire conn k ex sp w) = Inr False \<and> fst (ttl conn k sp w) = Inr (PInt (- 2)) \<and>
        fst (transaction P conn k x ex sp w) = Inr False \<and>
        fst (health_check conn sp w) = Inr False \<and> fst (is_alive conn sp w) = Inr False \<and>
        fst (mget P conn ks sp w) = Inr (replicate (length ks) PNone) \<and>
        fst (mset P conn kvs sp w) = Inr False \<and>
        fst (get_pending_msg conn q g sp w) = Inr (PList []))
   \<and> (call_fails conn (m_consumer msg) (XACK (m_queue_name msg) (m_group_name msg) (m_msg_id msg)) w \<longrightarrow>
        fst (ack conn msg w) = Inr False)
   \<and> (raising conn \<longrightarrow>
        fst (queue_product P conn q x sp w) = Inr False \<and>
        fst (queue_consumer P conn q g c mid sp w) = Inr None \<and>
        fst (requeue_msg conn q g mid sp w) = Inr False \<and>
        fst (queue_info conn q g sp w) = Inr PNone \<and>
        fst (unacked_next P conn g c sp st w) = None)"
  by (intro conjI impI)
     (simp_all add: kv_never_raise coll_never_raise queue_never_raise kv_defaults coll_defaults
        ack_default queue_product_def queue_consumer_def requeue_msg_def queue_info_def
        queue_product_loop_down queue_consumer_loop_down requeue_msg_loop_down queue_info_loop_down
        unacked_next_down queue_product_loop_returns queue_consumer_loop_returns
        requeue_msg_loop_returns queue_info_loop_returns)


lemma queue_product_attempts:
  assumes "dumps P x = Inr s"
  shows "fst (queue_product P conn q x sp w) =
          Inr (\<not> call_fails conn sp (XADD q (PDict [(PStr ''message'', PStr s)])) w \<or>
               \<not> call_fails conn sp (XADD q (PDict [(PStr ''message'', PStr s)]))
                    (snd (conn sp (XADD q (PDict [(PStr ''message'', PStr s)])) w)) \<or>
               \<not> call_fails conn sp (XADD q (PDict [(PStr ''message'', PStr s)]))
                    (snd (conn sp (XADD q (PDict [(PStr ''message'', PStr s)]))
                       (snd (conn sp (XADD q (PDict [(PStr ''message'', PStr s)])) w)))))"
  using assms
  by (auto simp: queue_product_def eval_nat_numeral call_fails_def split: prod.splits sum.splits)

lemma queue_product_unserialisable:
  "dumps P x = Inl e \<Longrightarrow> queue_product P conn q x sp w = (Inr False, w)"
  by (simp add: queue_product_def eval_nat_numeral)

lemma unacked_first_lookup:
  assumes "call_fails conn sp (XINFO_GROUPS q) w"
    "exn_str (projl (fst (conn sp (XINFO_GROUPS q) w))) \<noteq> ''no such key''"
  shows "unacked_next P conn g c sp (get_unacked_iterator (q # qs)) w =
          (None, snd (conn sp (XINFO_GROUPS q) w))"
  using assms
  by (auto simp: unacked_next_def get_unacked_iterator_def call_fails_def split: prod.splits sum.splits)

text \<open>
  C6, as amended. No operation of the facade or of the queue lets an exception out. An
  operation with one store call returns its default when that call raises: false for the
  boolean operations, \<^verbatim>\<open>None\<close> or the given default for the reads of one value, 0 for
  counts and lengths, an empty collection for the reads of collections, \<^verbatim>\<open>None\<close> per
  requested key for \<^verbatim>\<open>mget\<close>, and \<open>-2\<close> for \<^verbatim>\<open>ttl\<close>. \<^verbatim>\<open>queue_product\<close> does
  not return its default on a first exception: it sends its \<^verbatim>\<open>XADD\<close> up to three times
  and returns true as soon as one of them does not raise, false when all three raise or
  the message cannot be serialised. \<^verbatim>\<open>queue_consumer\<close>, \<^verbatim>\<open>requeue_msg\<close> and
  \<^verbatim>\<open>queue_info\<close> return their default when every store call raises. The unacked
  iterator ends when every store call raises, and at once when the group lookup of its
  first queue raises anything but \<^verbatim>\<open>no such key\<close>.
\<close>

theorem fail_soft_defaults:
  "((\<exists>v. fst (exist conn k sp w) = Inr v) \<and> (\<exists>v. fst (get conn k sp w) = Inr v) \<and>
    (\<exists>v. fst (set' conn k x ex sp w) = Inr v) \<and> (\<exists>v. fst (set_obj P conn k x ex sp w) = Inr v) \<and>
    (\<exists>v. fst (delete conn k sp w) = Inr v) \<and> (\<exists>v. fst (delete_if_equal conn k s sp w) = Inr v) \<and>
    (\<exists>v. fst (hset P conn name f x sp w) = Inr v) \<and> (\<exists>v. fst (hget P conn name f dflt sp w) = Inr v) \<and>
    (\<exists>v. fst (hgetall P conn name sp w) = Inr v) \<and> (\<exists>v. fst (hdel conn name fs sp w) = Inr v) \<and>
    (\<exists>v. fst (lpush P conn name xs sp w) = Inr v) \<and> (\<exists>v. fst (rpop P conn name dflt sp w) = Inr v) \<and>
    (\<exists>v. fst (llen conn name sp w) = Inr v) \<and>
    (\<exists>v. fst (sadd conn k m sp w) = Inr v) \<and> (\<exists>v. fst (srem conn k m sp w) = Inr v) \<and>
    (\<exists>v. fst (smembers conn k sp w) = Inr v) \<and> (\<exists>v. fst (sismember conn k m sp w) = Inr v) \<and>
    (\<exists>v. fst (zadd conn k m sc sp w) = Inr v) \<and> (\<exists>v. fst (zcount conn k lo hi sp w) = Inr v) \<and>
    (\<exists>v. fst (zpopmin conn k n sp w) = Inr v) \<and> (\<exists>v. fst (zrangebyscore conn k lo hi sp w) = Inr v) \<and>
    (\<exists>v. fst (expire conn k ex sp w) = Inr v) \<and> (\<exists>v. fst (ttl conn k sp w) = Inr v) \<and>
    (\<exists>v. fst (transaction P conn k x ex sp w) = Inr v) \<and>
    (\<exists>v. fst (health_check conn sp w) = Inr v) \<and> (\<exists>v. fst (is_alive conn sp w) = Inr v) \<and>
    (\<exists>v. fst (mget P conn ks sp w) = Inr v) \<and> (\<exists>v. fst (mset P conn kvs sp w) = Inr v) \<and>
    (\<exists>v. fst (queue_product P conn q x sp w) = Inr v) \<and>
    (\<exists>v. fst (queue_consumer P conn q g c mid sp w) = Inr v) \<and>
    (\<exists>v. fst (ack conn msg w) = Inr v) \<and>
    (\<exists>v. fst (get_pending_msg conn q g sp w) = Inr v) \<and>
    (\<exists>v. fst (requeue_msg conn q g mid sp w) = Inr v) \<and>
    (\<exists>v. fst (queue_info conn q g sp w) = Inr v))
   \<and> ((\<forall>cmd. call_fails conn sp cmd w) \<longrightarrow>
        fst (exist conn k sp w) = Inr False \<and> fst (get conn k sp w) = Inr PNone \<and>
        fst (set' conn k x ex sp w) = Inr False \<and> fst (set_obj P conn k x ex sp w) = Inr False \<and>
        fst (delete conn k sp w) = Inr False \<and> fst (delete_if_equal conn k s sp w) = Inr False \<and>
        fst (hset P conn name f x sp w) = Inr False \<and> fst (hget P conn name f dflt sp w) = Inr dflt \<and>
        fst (hgetall P conn name sp w) = Inr (PDict []) \<and> fst (hdel conn name fs sp w) = Inr (PInt 0) \<and>
        fst (lpush P conn name xs sp w) = Inr (PInt 0) \<and> fst (rpop P conn name dflt sp w) = Inr dflt \<and>
        fst (llen conn name sp w) = Inr (PInt 0) \<and>
        fst (sadd conn k m sp w) = Inr False \<and> fst (srem conn k m sp w) = Inr False \<and>
        fst (smembers conn k sp w) = Inr (PSet []) \<and> fst (sismember conn k m sp w) = Inr False \<and>
        fst (zadd conn k m sc sp w) = Inr False \<and> fst (zcount conn k lo hi sp w) = Inr (PInt 0) \<and>
        fst (zpopmin conn k n sp w) = Inr (PList []) \<and>
        fst (zrangebyscore conn k lo hi sp w) = Inr (PList []) \<and>
        fst (expire conn k ex sp w) = Inr False \<and> fst (ttl conn k sp w) = Inr (PInt (- 2)) \<and>
        fst (transaction P conn k x ex sp w) = Inr False \<and>
        fst (health_check conn sp w) = Inr False \<and> fst (is_alive conn sp w) = Inr False \<and>
        fst (mget P conn ks sp w) = Inr (replicate (length ks) PNone) \<and>
        fst (mset P conn kvs sp w) = Inr False \<and>
        fst (get_pending_msg conn q g sp w) = Inr (PList []))
   \<and> (call_fails conn (m_consumer msg) (XACK (m_queue_name msg) (m_group_name msg) (m_msg_id msg)) w \<longrightarrow>
        fst (ack conn msg w) = Inr False)
   \<and> (raising conn \<longrightarrow>
        fst (queue_product P conn q x sp w) = Inr False \<and>
        fst (queue_consumer P conn q g c mid sp w) = Inr None \<and>
        fst (requeue_msg conn q g mid sp w) = Inr False \<and>
        fst (queue_info conn q g sp w) = Inr PNone \<and>
        fst (unacked_next P conn g c sp st w) = None)
   \<and> (dumps P x = Inr s \<longrightarrow>
        fst (queue_product P conn q x sp w) =
          Inr (\<not> call_fails conn sp (XADD q (PDict [(PStr ''message'', PStr s)])) w \<or>
               \<not> call_fails conn sp (XADD q (PDict [(PStr ''message'', PStr s)]))
                    (snd (conn sp (XADD q (PDict [(PStr ''message'', PStr s)])) w)) \<or>
               \<not> call_fails conn sp (XADD q (PDict [(PStr ''message'', PStr s)]))
                    (snd (conn sp (XADD q (PDict [(PStr ''message'', PStr s)]))
                       (snd (conn sp (XADD q (PDict [(PStr ''message'', PStr s)])) w))))))
   \<and> ((\<exists>e. dumps P x = Inl e) \<longrightarrow> queue_product P conn q x sp w = (Inr False, w))
   \<and> (call_fails conn sp (XINFO_GROUPS q) w \<and>
        exn_str (projl (fst (conn sp (XINFO_GROUPS q) w))) \<noteq> ''no such key'' \<longrightarrow>
        unacked_next P conn g c sp (get_unacked_iterator (q # qs)) w =
          (None, snd (conn sp (XINFO_GROUPS q) w)))"
  using fail_soft_single[of conn k sp w x ex P s name f dflt fs xs m sc lo hi n ks kvs q g c mid msg st]
    queue_product_attempts[of P x s conn q sp w] queue_product_unserialisable[of P x _ conn q sp w]
    unacked_first_lookup[of conn sp q w P g c qs]
  by blast

lemma down_world_produce:
  "fst (sim_conn DEFAULT (XADD ''q'' (PDict [(PStr ''message'', PStr ''1'')])) down_world) =
     Inl (RedisError ''Connection refused'') \<and>
   fst (queue_product py_examples sim_conn ''q'' (PInt 1) DEFAULT down_world) = Inr True"
  by (simp add: queue_product_def eval_nat_numeral dumps_def py_examples_def json_examples_def
        sim_conn_def down_world_def world0_def run_on_def xadd_def)

theorem fail_soft_witness:
  "(\<forall>cmd. call_fails down_conn DEFAULT cmd ()) \<and> raising down_conn \<and>
   call_fails down_conn DEFAULT (XACK ''q'' ''g'' (PSid 1)) () \<and>
   dumps py_examples (PInt 1) = Inr ''1'' \<and>
   (\<exists>e. dumps py_examples (PStr ''z'') = Inl e) \<and>
   call_fails down_conn DEFAULT (XINFO_GROUPS ''q'') () \<and>
   exn_str (projl (fst (down_conn DEFAULT (XINFO_GROUPS ''q'') ()))) \<noteq> ''no such key'' \<and>
   fst (exist down_conn ''k'' DEFAULT ()) = Inr False \<and>
   fst (get down_conn ''k'' DEFAULT ()) = Inr PNone \<and>
   fst (hget py_examples down_conn ''h'' ''f'' (PInt 7) DEFAULT ()) = Inr (PInt 7) \<and>
   fst (llen down_conn ''l'' DEFAULT ()) = Inr (PInt 0) \<and>
   fst (smembers down_conn ''s'' DEFAULT ()) = Inr (PSet []) \<and>
   fst (ttl down_conn ''k'' DEFAULT ()) = Inr (PInt (- 2)) \<and>
   fst (mget py_examples down_conn [''a'', ''b''] DEFAULT ()) = Inr [PNone, PNone] \<and>
   fst (ack down_conn \<lparr>m_consumer = DEFAULT, m_queue_name = ''q'', m_group_name = ''g'',
                         m_msg_id = PSid 1, m_message = PInt 1\<rparr> ()) = Inr False \<and>
   fst (queue_product py_examples down_conn ''q'' (PInt 1) DEFAULT ()) = Inr False \<and>
   queue_product py_examples down_conn ''q'' (PStr ''z'') DEFAULT () = (Inr False, ()) \<and>
   fst (queue_consumer py_examples down_conn ''q'' ''g'' ''c'' (PStr ''>'') DEFAULT ()) = Inr None \<and>
   fst (requeue_msg down_conn ''q'' ''g'' (PSid 1) DEFAULT ()) = Inr False \<and>
   unacked_next py_examples down_conn ''g'' ''c'' DEFAULT (get_unacked_iterator [''q'', ''r'']) () = (None, ())"
  using fail_soft_defaults [where conn = down_conn and sp = DEFAULT and w = "()" and k = "''k''"
      and P = py_examples and name = "''h''" and f = "''f''" and dflt = "PInt 7"
      and ks = "[''a'', ''b'']" and q = "''q''" and g = "''g''" and c = "''c''" and x = "PInt 1"
      and s = "''1''" and qs = "[''r'']"
      and mid = "PStr ''>''" and st = "get_unacked_iterator [''q'']"
      and msg = "\<lparr>m_consumer = DEFAULT, m_queue_name = ''q'', m_group_name = ''g'',
                         m_msg_id = PSid 1, m_message = PInt 1\<rparr>"]
    fail_soft_defaults [where conn = down_conn and sp = DEFAULT and w = "()" and q = "''q''"
      and g = "''g''" and mid = "PSid 1" and name = "''l''" and k = "''s''"
      and P = py_examples and x = "PStr ''z''"]
    down_conn_raising
  by (simp add: dumps_def py_examples_def json_examples_def down_conn_def)

theorem ttl_default_counterexample:
  "raises (hd (schedule down_world)) = Some (RedisError ''Connection refused'') \<and>
   fst (sim_conn DEFAULT (TTL ''k'') down_world) = Inl (RedisError ''Connection refused'') \<and>
   fst (ttl sim_conn ''k'' DEFAULT down_world) = Inr (PInt (- 2)) \<and>
   PInt (- 2) \<notin> {PBool False, PNone, PInt 0, PStr [], PList [], PSet [], PDict []} \<and>
   fst (sim_conn DEFAULT (XADD ''q'' (PDict [(PStr ''message'', PStr ''1'')])) down_world) =
     Inl (RedisError ''Connection refused'') \<and>
   fst (queue_product py_examples sim_conn ''q'' (PInt 1) DEFAULT down_world) = Inr True"
  using down_world_produce by (simp add: ttl_def sim_conn_def down_world_def world0_def)

subsection \<open>JSON on write and on read\<close>

lemma map_of_upd_field [simp]: "map_of (upd_field f v fs) f = Some v"
  by (induction fs) auto

lemma hset_quiet:
  assumes "schedule w = []" "to_str_value P v = Inr d"
    "dbs w sp name = None \<or> (\<exists>fs. dbs w sp name = Some (VHash fs))"
  shows "\<exists>fs'. dbs (snd (hset P sim_conn name f v sp w)) sp name = Some (VHash fs') \<and>
               map_of fs' f = Some d \<and> schedule (snd (hset P sim_conn name f v sp w)) = []"
  using assms by (auto simp: hset_def sim_conn_quiet run_on_eq)

lemma hget_quiet:
  assumes "schedule w = []" "dbs w sp name = Some (VHash fs)" "map_of fs f = Some s"
    "json_loads P s = Inr x"
  shows "fst (hget P sim_conn name f dflt sp w) = Inr x"
  using assms
  by (auto simp: hget_def sim_conn_quiet run_on_eq loads_or_raw_def loads_def split: option.splits)

lemma to_str_value_json:
  "is_dict_or_list v \<Longrightarrow> dumps P v = Inr d \<Longrightarrow> to_str_value P v = Inr d"
  by (simp add: to_str_value_def py_str_def)

lemma set_obj_quiet:
  assumes "schedule w = []" "dumps P v = Inr d" "0 < ex"
  shows "set_obj P sim_conn k v ex sp w =
           (Inr True, w\<lparr>dbs := (dbs w)(sp := (dbs w sp)(k \<mapsto> VString d (Some ex))),
                        trace := trace w @ [(sp, SETEX k ex (PStr d), Inr (PBool True))]\<rparr>)"
  using assms by (simp add: set_obj_def sim_conn_quiet run_on_eq)

lemma structured_not_text: "is_dict_or_list v \<Longrightarrow> v \<noteq> PStr d"
  by (cases v) simp_all

text \<open>
  C9. What the code does, in a quiet environment, for a value \<open>v\<close> that \<^verbatim>\<open>json.dumps\<close>
  turns into the text \<open>d\<close>: \<^verbatim>\<open>set_obj\<close> stores \<open>d\<close>, and \<^verbatim>\<open>get\<close> of the key returns the
  text \<open>d\<close> itself, which is not \<open>v\<close> when \<open>v\<close> is a dict or a list. The other reads
  decode: when \<^verbatim>\<open>json.loads\<close> turns \<open>d\<close> back into \<open>v\<close>, \<^verbatim>\<open>mget\<close> of the key returns
  \<open>v\<close>, and \<^verbatim>\<open>hget\<close> after \<^verbatim>\<open>hset\<close> of a dict or list \<open>v\<close> returns \<open>v\<close>.
\<close>

theorem set_obj_get_returns_text:
  assumes "schedule w = []" "dumps P v = Inr d" "0 < ex"
  shows "fst (set_obj P sim_conn k v ex sp w) = Inr True
       \<and> string_value (dbs (snd (set_obj P sim_conn k v ex sp w)) sp) k = Some d
       \<and> fst (get sim_conn k sp (snd (set_obj P sim_conn k v ex sp w))) = Inr (PStr d)
       \<and> (is_dict_or_list v \<longrightarrow>
            fst (get sim_conn k sp (snd (set_obj P sim_conn k v ex sp w))) \<noteq> Inr v)
       \<and> (json_loads P d = Inr v \<longrightarrow>
            fst (mget P sim_conn [k] sp (snd (set_obj P sim_conn k v ex sp w))) = Inr [v])
       \<and> (json_loads P d = Inr v \<and> is_dict_or_list v \<and>
          (dbs w sp name = None \<or> (\<exists>fs. dbs w sp name = Some (VHash fs))) \<longrightarrow>
            fst (hget P sim_conn name f dflt sp (snd (hset P sim_conn name f v sp w))) = Inr v)"
proof (intro conjI impI)
  note so = set_obj_quiet[OF assms, of k sp]
  show "fst (set_obj P sim_conn k v ex sp w) = Inr True" by (simp add: so)
  show "string_value (dbs (snd (set_obj P sim_conn k v ex sp w)) sp) k = Some d"
    by (simp add: so string_value_def)
  show g: "fst (get sim_conn k sp (snd (set_obj P sim_conn k v ex sp w))) = Inr (PStr d)"
    using assms(1) by (simp add: so get_def sim_conn_quiet run_on_eq)
  show "fst (get sim_conn k sp (snd (set_obj P sim_conn k v ex sp w))) \<noteq> Inr v"
    if "is_dict_or_list v"
    using structured_not_text[OF that, of d] unfolding g by simp
  show "fst (mget P sim_conn [k] sp (snd (set_obj P sim_conn k v ex sp w))) = Inr [v]"
    if "json_loads P d = Inr v"
    using assms(1) that
    by (auto simp: so mget_def sim_conn_quiet run_on_eq loads_or_raw_def loads_def)
next
  assume h: "json_loads P d = Inr v \<and> is_dict_or_list v \<and>
          (dbs w sp name = None \<or> (\<exists>fs. dbs w sp name = Some (VHash fs)))"
  then have h3: "dbs w sp name = None \<or> (\<exists>fs. dbs w sp name = Some (VHash fs))" by simp
  from h have ts: "to_str_value P v = Inr d" using to_str_value_json assms(2) by simp
  from hset_quiet[OF assms(1) ts h3, of f]
  obtain fs' where fs': "dbs (snd (hset P sim_conn name f v sp w)) sp name = Some (VHash fs')"
    "map_of fs' f = Some d" "schedule (snd (hset P sim_conn name f v sp w)) = []"
    by blast
  show "fst (hget P sim_conn name f dflt sp (snd (hset P sim_conn name f v sp w))) = Inr v"
    using hget_quiet[OF fs'(3) fs'(1) fs'(2), of P v dflt] h by simp
qed

theorem set_obj_get_witness:
  "schedule world0 = [] \<and> dumps py_examples (PList [PInt 1, PInt 2]) = Inr ''[1, 2]'' \<and> (0::int) < 3600 \<and>
   is_dict_or_list (PList [PInt 1, PInt 2]) \<and>
   json_loads py_examples ''[1, 2]'' = Inr (PList [PInt 1, PInt 2]) \<and>
   dbs world0 DEFAULT ''h'' = None \<and>
   fst (set_obj py_examples sim_conn ''k'' (PList [PInt 1, PInt 2]) 3600 DEFAULT world0) = Inr True \<and>
   fst (get sim_conn ''k'' DEFAULT
         (snd (set_obj py_examples sim_conn ''k'' (PList [PInt 1, PInt 2]) 3600 DEFAULT world0))) =
     Inr (PStr ''[1, 2]'') \<and>
   fst (get sim_conn ''k'' DEFAULT
         (snd (set_obj py_examples sim_conn ''k'' (PList [PInt 1, PInt 2]) 3600 DEFAULT world0))) \<noteq>
     Inr (PList [PInt 1, PInt 2]) \<and>
   fst (mget py_examples sim_conn [''k''] DEFAULT
         (snd (set_obj py_examples sim_conn ''k'' (PList [PInt 1, PInt 2]) 3600 DEFAULT world0))) =
     Inr [PList [PInt 1, PInt 2]] \<and>
   fst (hget py_examples sim_conn ''h'' ''f'' PNone DEFAULT
         (snd (hset py_examples sim_conn ''h'' ''f'' (PList [PInt 1, PInt 2]) DEFAULT world0))) =
     Inr (PList [PInt 1, PInt 2])"
  using set_obj_get_returns_text [where w = world0 and v = "PList [PInt 1, PInt 2]" and P = py_examples
      and d = "''[1, 2]''" and sp = DEFAULT and name = "''h''" and f = "''f''" and dflt = PNone
      and ex = 3600 and k = "''k''"]
  by (simp add: world0_def dumps_def py_examples_def json_examples_def)

subsection \<open>Requeue\<close>

lemma attempts_simps [simp]:
  "attempts q mid [] = 0"
  "attempts q mid (c # cs) = (if fst (snd c) = XRANGE q mid mid then Suc (attempts q mid cs) else attempts q mid cs)"
  "attempts q mid (xs @ ys) = attempts q mid xs + attempts q mid ys"
  by (simp_all add: attempts_def)




lemma field_pairs_fields [simp]:
  "field_pairs (map (\<lambda>(k, v). (PStr k, PStr v)) fs) = Some fs"
  by (induction fs) auto

lemma entry_fields_py_fields [simp]:
  "entry_fields (py_fields fs) = (if fs = [] then None else Some fs)"
  by (cases fs) (auto simp: py_fields_def)







end
